theory Spec2Isabelle
  imports Complex_Main "HOL-Library.Word" "HOL-Library.Char_ord" "HOL-Library.List_Lexorder"
begin

unbundle bit_operations_syntax

section \<open>Library functions used by the services\<close>

text \<open>
  Go strings and byte slices are sequences of bytes; both are modelled as \<open>string\<close>
  (a list of 8-bit characters), so \<open>[]byte(s)\<close> and \<open>string(b)\<close> are the identity.
\<close>

subsection \<open>encoding/hex\<close>

definition hexdigit :: "nat \<Rightarrow> char" where
  "hexdigit n = ''0123456789abcdef'' ! (n mod 16)"

text \<open>\<open>hex.EncodeToString\<close>: two lower-case digits per byte.\<close>

fun EncodeToString :: "string \<Rightarrow> string" where
  "EncodeToString [] = []"
| "EncodeToString (c # cs) =
     hexdigit (of_char c div 16) # hexdigit (of_char c mod 16) # EncodeToString cs"

definition fromHexChar :: "char \<Rightarrow> nat option" where
  "fromHexChar c =
     (let n = (of_char c :: nat) in
      if 48 \<le> n \<and> n \<le> 57 then Some (n - 48)
      else if 97 \<le> n \<and> n \<le> 102 then Some (n - 97 + 10)
      else if 65 \<le> n \<and> n \<le> 70 then Some (n - 65 + 10)
      else None)"

text \<open>
  \<open>hex.DecodeString\<close> returns the bytes decoded before the first error together with the
  error. Both callers (\<open>hashPair\<close>) discard the error, so only the decoded prefix is
  modelled: decoding stops at the first pair holding a non-hex character, and a trailing
  single character is dropped.
\<close>

fun DecodeString :: "string \<Rightarrow> string" where
  "DecodeString (p # q # rest) =
     (case fromHexChar p of
        None \<Rightarrow> []
      | Some a \<Rightarrow>
          (case fromHexChar q of
             None \<Rightarrow> []
           | Some b \<Rightarrow> char_of (a * 16 + b) # DecodeString rest))"
| "DecodeString _ = []"

subsection \<open>crypto/sha256\<close>

text \<open>SHA-256 as FIPS 180-4 defines it; the round constants and the initial state in decimal.\<close>

type_synonym u32 = "32 word"

definition sha256_K :: "u32 list" where
  "sha256_K = [
   1116352408, 1899447441, 3049323471, 3921009573, 961987163, 1508970993, 2453635748, 2870763221,
   3624381080, 310598401, 607225278, 1426881987, 1925078388, 2162078206, 2614888103, 3248222580,
   3835390401, 4022224774, 264347078, 604807628, 770255983, 1249150122, 1555081692, 1996064986,
   2554220882, 2821834349, 2952996808, 3210313671, 3336571891, 3584528711, 113926993, 338241895,
   666307205, 773529912, 1294757372, 1396182291, 1695183700, 1986661051, 2177026350, 2456956037,
   2730485921, 2820302411, 3259730800, 3345764771, 3516065817, 3600352804, 4094571909, 275423344,
   430227734, 506948616, 659060556, 883997877, 958139571, 1322822218, 1537002063, 1747873779,
   1955562222, 2024104815, 2227730452, 2361852424, 2428436474, 2756734187, 3204031479, 3329325298]"

type_synonym sha_state = "u32 \<times> u32 \<times> u32 \<times> u32 \<times> u32 \<times> u32 \<times> u32 \<times> u32"

definition sha256_init :: sha_state where
  "sha256_init = (1779033703, 3144134277, 1013904242, 2773480762,
                  1359893119, 2600822924, 528734635, 1541459225)"

definition rotr :: "nat \<Rightarrow> u32 \<Rightarrow> u32" where
  "rotr n x = (drop_bit n x) OR (push_bit (32 - n) x)"

definition Ch :: "u32 \<Rightarrow> u32 \<Rightarrow> u32 \<Rightarrow> u32" where
  "Ch x y z = (x AND y) XOR (NOT x AND z)"

definition Maj :: "u32 \<Rightarrow> u32 \<Rightarrow> u32 \<Rightarrow> u32" where
  "Maj x y z = (x AND y) XOR (x AND z) XOR (y AND z)"

definition bsig0 :: "u32 \<Rightarrow> u32" where
  "bsig0 x = rotr 2 x XOR rotr 13 x XOR rotr 22 x"

definition bsig1 :: "u32 \<Rightarrow> u32" where
  "bsig1 x = rotr 6 x XOR rotr 11 x XOR rotr 25 x"

definition ssig0 :: "u32 \<Rightarrow> u32" where
  "ssig0 x = rotr 7 x XOR rotr 18 x XOR drop_bit 3 x"

definition ssig1 :: "u32 \<Rightarrow> u32" where
  "ssig1 x = rotr 17 x XOR rotr 19 x XOR drop_bit 10 x"

fun be32 :: "string \<Rightarrow> u32 list" where
  "be32 (a # b # c # d # rest) =
     (push_bit 24 (of_nat (of_char a)) OR push_bit 16 (of_nat (of_char b))
        OR push_bit 8 (of_nat (of_char c)) OR of_nat (of_char d)) # be32 rest"
| "be32 _ = []"

fun schedule :: "nat \<Rightarrow> u32 list \<Rightarrow> u32 list" where
  "schedule 0 w = w"
| "schedule (Suc n) w =
     (let t = length w in
      schedule n (w @ [ssig1 (w ! (t - 2)) + w ! (t - 7) + ssig0 (w ! (t - 15)) + w ! (t - 16)]))"

fun rounds :: "u32 list \<Rightarrow> u32 list \<Rightarrow> sha_state \<Rightarrow> sha_state" where
  "rounds (k # ks) (w # ws) (a, b, c, d, e, f, g, h) =
     (let t1 = h + bsig1 e + Ch e f g + k + w;
          t2 = bsig0 a + Maj a b c
      in rounds ks ws (t1 + t2, a, b, c, d + t1, e, f, g))"
| "rounds _ _ s = s"

definition compress :: "sha_state \<Rightarrow> string \<Rightarrow> sha_state" where
  "compress s blk =
     (case s of (a, b, c, d, e, f, g, h) \<Rightarrow>
        (case rounds sha256_K (schedule 48 (be32 blk)) s of
           (a', b', c', d', e', f', g', h') \<Rightarrow>
             (a + a', b + b', c + c', d + d', e + e', f + f', g + g', h + h')))"

function blocks :: "sha_state \<Rightarrow> string \<Rightarrow> sha_state" where
  "blocks s m = (if length m < 64 then s else blocks (compress s (take 64 m)) (drop 64 m))"
  by pat_completeness auto
termination
  by (relation "measure (\<lambda>(s, m). length m)") auto

definition bytes_be :: "nat \<Rightarrow> nat \<Rightarrow> string" where
  "bytes_be k n = map (\<lambda>i. char_of (n div 256 ^ i)) (rev [0..<k])"

definition pad :: "string \<Rightarrow> string" where
  "pad m = m @ [char_of (128::nat)]
             @ replicate ((119 - length m mod 64) mod 64) (char_of (0::nat))
             @ bytes_be 8 (8 * length m)"

definition out32 :: "u32 \<Rightarrow> string" where
  "out32 x = bytes_be 4 (unat x)"

text \<open>\<open>sha256.Sum256\<close>: the 32-byte digest of a byte string.\<close>

definition sha256 :: "string \<Rightarrow> string" where
  "sha256 m =
     (case blocks sha256_init (pad m) of (a, b, c, d, e, f, g, h) \<Rightarrow>
        out32 a @ out32 b @ out32 c @ out32 d @ out32 e @ out32 f @ out32 g @ out32 h)"

section \<open>Merkle engine\<close>

text \<open>
  \<open>hashPair\<close> is defined twice in the repository, with the same body, in the processor
  and in the query API: hex-decode both arguments (errors dropped), concatenate, SHA-256,
  hex-encode.
\<close>

definition hashPair :: "string \<Rightarrow> string \<Rightarrow> string" where
  "hashPair left right = EncodeToString (sha256 (DecodeString left @ DecodeString right))"

subsection \<open>Processor: pointer-linked tree\<close>

text \<open>
  The processor builds a tree of \<open>*MerkleNode\<close> objects that point at each other
  (\<open>Left\<close>, \<open>Right\<close>, \<open>Parent\<close>) and \<open>GetProof\<close> compares pointers, so the nodes live
  in an explicit store: a heap is a list of nodes, a pointer is an index into it, \<open>nil\<close>
  is \<open>None\<close>, and \<open>&MerkleNode{...}\<close> appends a node and returns its index.
\<close>

record MerkleNode =
  Hash :: string
  Left :: "nat option"
  Right :: "nat option"
  Parent :: "nat option"

type_synonym heap = "MerkleNode list"

record MerkleTree =
  root :: "nat option"
  leaves :: "nat list"

definition new_node :: "heap \<Rightarrow> MerkleNode \<Rightarrow> heap \<times> nat" where
  "new_node h n = (h @ [n], length h)"

definition leaf_node :: "string \<Rightarrow> MerkleNode" where
  "leaf_node x = \<lparr>Hash = x, Left = None, Right = None, Parent = None\<rparr>"

definition set_Parent :: "heap \<Rightarrow> nat \<Rightarrow> nat \<Rightarrow> heap" where
  "set_Parent h a p = h[a := (h ! a)\<lparr>Parent := Some p\<rparr>]"

text \<open>The \<open>for i := 0; i < len(nodes); i += 2\<close> loop of \<open>buildTree\<close>.\<close>

fun pairUp :: "heap \<Rightarrow> nat list \<Rightarrow> heap \<times> nat list" where
  "pairUp h [] = (h, [])"
| "pairUp h [l] =
     (let (h1, p) = new_node h \<lparr>Hash = hashPair (Hash (h ! l)) (Hash (h ! l)),
                                 Left = Some l, Right = Some l, Parent = None\<rparr>;
          h2 = set_Parent (set_Parent h1 l p) l p
      in (h2, [p]))"
| "pairUp h (l # r # rest) =
     (let (h1, p) = new_node h \<lparr>Hash = hashPair (Hash (h ! l)) (Hash (h ! r)),
                                 Left = Some l, Right = Some r, Parent = None\<rparr>;
          h2 = set_Parent (set_Parent h1 l p) r p;
          (h3, ps) = pairUp h2 rest
      in (h3, p # ps))"

text \<open>The duplication of the last parent when their number is odd and above one.\<close>

definition dupLast :: "heap \<Rightarrow> nat list \<Rightarrow> heap \<times> nat list" where
  "dupLast h parents =
     (if length parents > 1 \<and> length parents mod 2 \<noteq> 0
      then (let (h1, d) = new_node h (leaf_node (Hash (h ! last parents)))
            in (h1, parents @ [d]))
      else (h, parents))"

text \<open>
  \<open>buildTree\<close> recurses on the list of parents. On the empty slice the Go function calls
  itself with an empty slice again and never returns; here that is the value \<open>None\<close>.
\<close>

partial_function (option) buildTree :: "heap \<Rightarrow> nat list \<Rightarrow> (heap \<times> nat) option" where
  "buildTree h nodes =
     (if length nodes = 1 then Some (h, nodes ! 0)
      else (case pairUp h nodes of (h1, parents) \<Rightarrow>
              (case dupLast h1 parents of (h2, parents') \<Rightarrow> buildTree h2 parents')))"

fun new_leaves :: "heap \<Rightarrow> string list \<Rightarrow> heap \<times> nat list" where
  "new_leaves h [] = (h, [])"
| "new_leaves h (x # xs) =
     (let (h1, a) = new_node h (leaf_node x);
          (h2, as) = new_leaves h1 xs
      in (h2, a # as))"

definition BuildMerkleTree :: "string list \<Rightarrow> (heap \<times> MerkleTree) option" where
  "BuildMerkleTree hashes =
     (if length hashes = 0
      then (let (h, r) = new_node [] (leaf_node (EncodeToString (sha256 [])))
            in Some (h, \<lparr>root = Some r, leaves = []\<rparr>))
      else (let (h1, lvs) = new_leaves [] hashes;
                (h2, lvs') = (if length lvs mod 2 \<noteq> 0
                              then (let (h', d) = new_node h1 (leaf_node (Hash (h1 ! last lvs)))
                                    in (h', lvs @ [d]))
                              else (h1, lvs))
            in (case buildTree h2 lvs' of
                  None \<Rightarrow> None
                | Some (h3, r) \<Rightarrow> Some (h3, \<lparr>root = Some r, leaves = lvs'\<rparr>))))"

definition Root :: "heap \<Rightarrow> MerkleTree \<Rightarrow> string" where
  "Root h t = (case root t of None \<Rightarrow> [] | Some r \<Rightarrow> Hash (h ! r))"

record ProofElement =
  elem_Hash :: string
  Position :: string

text \<open>
  The \<open>for node.Parent != nil\<close> loop of \<open>GetProof\<close>. It follows parent pointers, so on a
  cyclic heap it would not return: \<open>None\<close> stands for that.
\<close>

partial_function (option) proofLoop ::
  "heap \<Rightarrow> nat \<Rightarrow> ProofElement list \<Rightarrow> ProofElement list option" where
  "proofLoop h node proof =
     (case Parent (h ! node) of
        None \<Rightarrow> Some proof
      | Some parent \<Rightarrow>
          (let (sibling, position) =
                 (if Left (h ! parent) = Some node then (Right (h ! parent), ''right'')
                  else (Left (h ! parent), ''left''));
               proof' = (case sibling of
                           None \<Rightarrow> proof
                         | Some s \<Rightarrow> proof @ [\<lparr>elem_Hash = Hash (h ! s), Position = position\<rparr>])
           in proofLoop h parent proof'))"

definition GetProof :: "heap \<Rightarrow> MerkleTree \<Rightarrow> int \<Rightarrow> ProofElement list option" where
  "GetProof h t index =
     (if index < 0 \<or> index \<ge> int (length (leaves t)) then Some []
      else proofLoop h (leaves t ! nat index) [])"

fun foldProof :: "string \<Rightarrow> ProofElement list \<Rightarrow> string" where
  "foldProof currentHash [] = currentHash"
| "foldProof currentHash (element # rest) =
     (if Position element = ''left''
      then foldProof (hashPair (elem_Hash element) currentHash) rest
      else foldProof (hashPair currentHash (elem_Hash element)) rest)"

definition VerifyProof :: "string \<Rightarrow> ProofElement list \<Rightarrow> string \<Rightarrow> bool" where
  "VerifyProof leafHash proof root_hash = (foldProof leafHash proof = root_hash)"

subsection \<open>Query API: level lists\<close>

text \<open>
  The inner loop of \<open>buildMerkleTree\<close> reads \<open>current[i+1]\<close>; on a slice of odd length
  that index is out of range and Go panics, which is the value \<open>None\<close>.
\<close>

fun hashLevel :: "string list \<Rightarrow> string list option" where
  "hashLevel [] = Some []"
| "hashLevel [a] = None"
| "hashLevel (a # b # rest) =
     (case hashLevel rest of None \<Rightarrow> None | Some next \<Rightarrow> Some (hashPair a b # next))"

definition dupOdd :: "string list \<Rightarrow> string list" where
  "dupOdd current = (if length current mod 2 \<noteq> 0 then current @ [last current] else current)"

record merkleTree =
  api_root :: string
  api_leaves :: "string list"
  api_levels :: "string list list"

text \<open>
  The \<open>for len(current) > 1\<close> loop: the tree under construction and the current level
  are passed along; \<open>None\<close> is the panic of the inner loop.
\<close>

function levelLoop :: "merkleTree \<Rightarrow> string list \<Rightarrow> (merkleTree \<times> string list) option" where
  "levelLoop tree current =
     (if length current > 1
      then (case hashLevel (dupOdd current) of
              None \<Rightarrow> None
            | Some next \<Rightarrow> levelLoop (tree\<lparr>api_levels := api_levels tree @ [next]\<rparr>) next)
      else Some (tree, current))"
  by pat_completeness auto
termination
proof (relation "measure (\<lambda>(t, c). length c)")
  show "wf (measure (\<lambda>(t, c). length c))" by simp
next
  fix tree :: merkleTree and current nxt :: "string list"
  have len: "hashLevel xs = Some ys \<Longrightarrow> length ys = length xs div 2" for xs ys
    by (induction xs arbitrary: ys rule: hashLevel.induct) (auto split: option.splits)
  assume "1 < length current" and "hashLevel (dupOdd current) = Some nxt"
  then have "length nxt = length (dupOdd current) div 2"
    by (simp add: len)
  with \<open>1 < length current\<close>
  show "((tree\<lparr>api_levels := api_levels tree @ [nxt]\<rparr>, nxt), (tree, current))
          \<in> measure (\<lambda>(t, c). length c)"
    by (auto simp: dupOdd_def)
qed

definition buildMerkleTree :: "string list \<Rightarrow> merkleTree option" where
  "buildMerkleTree hashes =
     (if length hashes = 0 then Some \<lparr>api_root = [], api_leaves = [], api_levels = []\<rparr>
      else (case levelLoop \<lparr>api_root = [], api_leaves = hashes, api_levels = [hashes]\<rparr> hashes of
              None \<Rightarrow> None
            | Some (tree, current) \<Rightarrow>
                (case current of
                   [] \<Rightarrow> None
                 | c # _ \<Rightarrow> Some (tree\<lparr>api_root := c\<rparr>))))"

subsection \<open>The root as a function of the leaf hashes\<close>

text \<open>
  A pointer-free description of the root, used to relate the two implementations: pair
  adjacent hashes, duplicating the last one of an odd level, until one hash is left.
\<close>

fun pairHashes :: "string list \<Rightarrow> string list" where
  "pairHashes (a # b # rest) = hashPair a b # pairHashes rest"
| "pairHashes _ = []"

function merkleRoot :: "string list \<Rightarrow> string" where
  "merkleRoot xs =
     (if length xs \<le> 1 then (case xs of [] \<Rightarrow> [] | x # _ \<Rightarrow> x)
      else merkleRoot (pairHashes (dupOdd xs)))"
  by pat_completeness auto
termination
proof (relation "measure length")
  show "wf (measure (length :: string list \<Rightarrow> nat))" by simp
next
  fix xs :: "string list"
  have len: "length (pairHashes ys) = length ys div 2" for ys
    by (induction ys rule: pairHashes.induct) auto
  assume "\<not> length xs \<le> 1"
  then show "(pairHashes (dupOdd xs), xs) \<in> measure length"
    by (auto simp: len dupOdd_def)
qed

declare blocks.simps [simp del]
declare merkleRoot.simps [simp del]
declare levelLoop.simps [simp del]

text \<open>
  The root as the two services obtain it: \<open>BuildMerkleTree(hashes).Root()\<close> in the
  processor's \<open>flush\<close>, \<open>buildMerkleTree(hashes).root\<close> in the query API's evidence
  package. \<open>None\<close> stands for a call that does not return.
\<close>

definition processorRoot :: "string list \<Rightarrow> string option" where
  "processorRoot hashes =
     (case BuildMerkleTree hashes of None \<Rightarrow> None | Some (h, t) \<Rightarrow> Some (Root h t))"

definition apiRoot :: "string list \<Rightarrow> string option" where
  "apiRoot hashes =
     (case buildMerkleTree hashes of None \<Rightarrow> None | Some t \<Rightarrow> Some (api_root t))"

section \<open>Events and their canonical form\<close>

subsection \<open>JSON values\<close>

text \<open>
  The values \<open>interface{}\<close> holds after decoding JSON, and the values the canonical map
  is filled with. A Go map is an association list (its order is never observed:
  \<open>json.Marshal\<close> sorts the keys); a \<open>nil\<close> pointer, map or slice is \<open>JNull\<close>. An
  \<open>int64\<close> is an \<open>int\<close>: the services copy and print these numbers and never compute
  with them. A \<open>float64\<close> is a \<open>real\<close>.
\<close>

datatype json =
    JNull
  | JBool bool
  | JInt int
  | JFloat real
  | JString string
  | JArray "json list"
  | JObject "(string \<times> json) list"

subsection \<open>Event records\<close>

text \<open>
  A pointer field (\<open>*string\<close>, \<open>*float64\<close>, \<open>*int64\<close>, \<open>*int32\<close>) is an option, \<open>nil\<close>
  being \<open>None\<close>; so are the maps and the slice, which can be \<open>nil\<close> too.
\<close>

record ExecutionMeta =
  ModelID :: "string option"
  ModelHash :: "string option"
  Temperature :: "real option"
  Seed :: "int option"
  MaxTokens :: "int option"
  ToolCalls :: "json list option"
  SDKVersion :: string
  SDKLanguage :: string
  Tags :: "(string \<times> string) list option"

record Proof =
  Signature :: string
  PublicKey :: string
  PrevHash :: string
  EventHash :: string

record FactoEvent =
  FactoID :: string
  AgentID :: string
  SessionID :: string
  ParentFactoID :: "string option"
  ActionType :: string
  Status :: string
  InputData :: "(string \<times> json) list option"
  OutputData :: "(string \<times> json) list option"
  ExecutionMeta :: ExecutionMeta
  Proof :: Proof
  StartedAt :: int
  CompletedAt :: int

text \<open>
  The query API declares \<open>EventResponse\<close>, \<open>ExecutionMetaResponse\<close> and
  \<open>ProofResponse\<close> with the fields and field types of the processor's \<open>FactoEvent\<close>,
  \<open>ExecutionMeta\<close> and \<open>Proof\<close> (only the JSON tags differ), and the TypeScript
  \<open>FactoEventWire\<close> is the same shape under the JSON names (\<open>facto_id\<close> for \<open>FactoID\<close>,
  and so on). One family of records models all three.
\<close>

type_synonym EventResponse = FactoEvent
type_synonym FactoEventWire = FactoEvent

subsection \<open>Library functions that stay abstract\<close>

text \<open>
  The functions of the Go standard library and of \<open>golang.org/x/crypto\<close> below are not
  part of the repository; every function that calls one of them takes the library as its
  first argument.
  \<^item> \<open>sha3_Sum256\<close>: \<open>sha3.Sum256\<close>, the 32-byte digest;
  \<^item> \<open>ed25519_Verify\<close>: \<open>ed25519.Verify\<close> on a 32-byte key (public key, message,
    signature);
  \<^item> \<open>escapeString\<close>: what the string encoder of \<open>encoding/json\<close> writes, quotes
    included, for a string that needs escaping;
  \<^item> \<open>FormatFloat\<close>: the \<open>float64\<close> encoder of \<open>encoding/json\<close>;
  \<^item> \<open>float32\<close>: the conversion \<open>float32(x)\<close>, read back as a \<open>float64\<close>;
  \<^item> \<open>Unmarshal\<close>: \<open>json.Unmarshal\<close> of a message body into a \<open>FactoEvent\<close>, \<open>None\<close>
    when it returns an error.
\<close>

record golib =
  sha3_Sum256 :: "string \<Rightarrow> string"
  ed25519_Verify :: "string \<Rightarrow> string \<Rightarrow> string \<Rightarrow> bool"
  escapeString :: "string \<Rightarrow> string"
  FormatFloat :: "real \<Rightarrow> string"
  float32 :: "real \<Rightarrow> real"
  Unmarshal :: "string \<Rightarrow> FactoEvent option"

subsection \<open>strconv and encoding/json\<close>

definition digit_char :: "nat \<Rightarrow> char" where
  "digit_char d = ''0123456789'' ! (d mod 10)"

function FormatUint :: "nat \<Rightarrow> string" where
  "FormatUint n = (if n < 10 then [digit_char n] else FormatUint (n div 10) @ [digit_char n])"
  by pat_completeness auto
termination
  by (relation "measure id") auto

declare FormatUint.simps [simp del]

definition FormatInt :: "int \<Rightarrow> string" where
  "FormatInt i = (if i < 0 then CHR ''-'' # FormatUint (nat (- i)) else FormatUint (nat i))"

text \<open>
  The string encoder of \<open>encoding/json\<close> copies a string of printable ASCII characters
  other than the quote, the backslash, \<open><\<close>, \<open>>\<close> and \<open>&\<close> between two quotes.
\<close>

definition plainChar :: "char \<Rightarrow> bool" where
  "plainChar c =
     (let n = (of_char c :: nat) in
      32 \<le> n \<and> n < 127 \<and> n \<noteq> 34 \<and> n \<noteq> 92 \<and> n \<noteq> 60 \<and> n \<noteq> 62 \<and> n \<noteq> 38)"

definition encodeString :: "golib \<Rightarrow> string \<Rightarrow> string" where
  "encodeString L s =
     (if list_all plainChar s then [CHR 0x22] @ s @ [CHR 0x22] else escapeString L s)"

fun intercalate :: "string \<Rightarrow> string list \<Rightarrow> string" where
  "intercalate sep [] = []"
| "intercalate sep [x] = x"
| "intercalate sep (x # y # rest) = x @ sep @ intercalate sep (y # rest)"

text \<open>
  \<open>json.Marshal\<close> writes no insignificant whitespace and writes the keys of every map,
  at every depth, in byte order: \<open>sortKeys\<close> puts the entries in that order and
  \<open>encode\<close> prints them.
\<close>

fun sortKeys :: "json \<Rightarrow> json"
  and sortFields :: "(string \<times> json) list \<Rightarrow> (string \<times> json) list"
  and sortElems :: "json list \<Rightarrow> json list" where
  "sortKeys (JArray xs) = JArray (sortElems xs)"
| "sortKeys (JObject kvs) = JObject (sort_key fst (sortFields kvs))"
| "sortKeys JNull = JNull"
| "sortKeys (JBool b) = JBool b"
| "sortKeys (JInt i) = JInt i"
| "sortKeys (JFloat x) = JFloat x"
| "sortKeys (JString s) = JString s"
| "sortFields [] = []"
| "sortFields ((k, v) # kvs) = (k, sortKeys v) # sortFields kvs"
| "sortElems [] = []"
| "sortElems (x # xs) = sortKeys x # sortElems xs"

fun encode :: "golib \<Rightarrow> json \<Rightarrow> string"
  and encodeFields :: "golib \<Rightarrow> (string \<times> json) list \<Rightarrow> string list"
  and encodeElems :: "golib \<Rightarrow> json list \<Rightarrow> string list" where
  "encode L JNull = ''null''"
| "encode L (JBool b) = (if b then ''true'' else ''false'')"
| "encode L (JInt i) = FormatInt i"
| "encode L (JFloat x) = FormatFloat L x"
| "encode L (JString s) = encodeString L s"
| "encode L (JArray xs) = ''['' @ intercalate '','' (encodeElems L xs) @ '']''"
| "encode L (JObject kvs) = ''{'' @ intercalate '','' (encodeFields L kvs) @ ''}''"
| "encodeFields L [] = []"
| "encodeFields L ((k, v) # kvs) = (encodeString L k @ '':'' @ encode L v) # encodeFields L kvs"
| "encodeElems L [] = []"
| "encodeElems L (x # xs) = encode L x # encodeElems L xs"

definition Marshal :: "golib \<Rightarrow> json \<Rightarrow> string" where
  "Marshal L v = encode L (sortKeys v)"

subsection \<open>Canonical form, query API (Go)\<close>

text \<open>
  \<open>sortedMap\<close> copies a map with its keys in order, and does the same to every value
  that is itself a \<open>map[string]interface{}\<close>.
\<close>

fun sortedMap :: "(string \<times> json) list \<Rightarrow> (string \<times> json) list"
  and sortedEntries :: "(string \<times> json) list \<Rightarrow> (string \<times> json) list" where
  "sortedMap m = sort_key fst (sortedEntries m)"
| "sortedEntries [] = []"
| "sortedEntries ((k, v) # rest) =
     (case v of
        JObject nested \<Rightarrow> (k, JObject (sortedMap nested))
      | _ \<Rightarrow> (k, v)) # sortedEntries rest"

text \<open>Assignment \<open>m[k] = v\<close> to a Go map or a JavaScript object.\<close>

fun assign :: "string \<Rightarrow> json \<Rightarrow> (string \<times> json) list \<Rightarrow> (string \<times> json) list" where
  "assign k v [] = [(k, v)]"
| "assign k v ((k', v') # m) = (if k' = k then (k, v) # m else (k', v') # assign k v m)"

definition ptrString :: "string option \<Rightarrow> json" where
  "ptrString p = (case p of None \<Rightarrow> JNull | Some s \<Rightarrow> JString s)"

definition ptrInt :: "int option \<Rightarrow> json" where
  "ptrInt p = (case p of None \<Rightarrow> JNull | Some i \<Rightarrow> JInt i)"

definition sliceValue :: "json list option \<Rightarrow> json" where
  "sliceValue s = (case s of None \<Rightarrow> JNull | Some xs \<Rightarrow> JArray xs)"

text \<open>
  \<open>InputData\<close> and \<open>OutputData\<close> have the static type \<open>map[string]interface{}\<close>, so the
  type assertion in \<open>sortedMap\<close> succeeds for them even when they are \<open>nil\<close>, and
  \<open>sortedMap\<close> returns a fresh empty map for a \<open>nil\<close> one: a \<open>nil\<close> map enters the
  canonical map as the empty object.
\<close>

definition mapValue :: "(string \<times> json) list option \<Rightarrow> json" where
  "mapValue m = (case m of None \<Rightarrow> JObject [] | Some kvs \<Rightarrow> JObject kvs)"

definition execMeta :: "ExecutionMeta \<Rightarrow> (string \<times> json) list" where
  "execMeta em =
     (let m0 = [];
          m1 = (case ModelID em of None \<Rightarrow> m0 | Some s \<Rightarrow> assign ''model_id'' (JString s) m0);
          m2 = assign ''seed'' (ptrInt (Seed em)) m1;
          m3 = assign ''sdk_version'' (JString (SDKVersion em)) m2;
          m4 = (case Temperature em of None \<Rightarrow> m3 | Some t \<Rightarrow> assign ''temperature'' (JFloat t) m3);
          m5 = assign ''tool_calls'' (sliceValue (ToolCalls em)) m4
      in m5)"

definition canonicalMap :: "EventResponse \<Rightarrow> (string \<times> json) list" where
  "canonicalMap event =
     (let c = [];
          c = assign ''action_type'' (JString (ActionType event)) c;
          c = assign ''agent_id'' (JString (AgentID event)) c;
          c = assign ''completed_at'' (JInt (CompletedAt event)) c;
          c = assign ''execution_meta'' (JObject (execMeta (ExecutionMeta event))) c;
          c = assign ''input_data'' (mapValue (InputData event)) c;
          c = assign ''output_data'' (mapValue (OutputData event)) c;
          c = assign ''parent_facto_id'' (ptrString (ParentFactoID event)) c;
          c = assign ''prev_hash'' (JString (PrevHash (Proof event))) c;
          c = assign ''session_id'' (JString (SessionID event)) c;
          c = assign ''started_at'' (JInt (StartedAt event)) c;
          c = assign ''status'' (JString (Status event)) c;
          c = assign ''facto_id'' (JString (FactoID event)) c
      in c)"

definition buildCanonicalForm :: "golib \<Rightarrow> EventResponse \<Rightarrow> string" where
  "buildCanonicalForm L event = Marshal L (JObject (sortedMap (canonicalMap event)))"

subsection \<open>Canonical form, TypeScript SDK\<close>

text \<open>
  \<open>JSON.stringify(value, list)\<close> with an array as second argument (ECMAScript,
  SerializeJSONObject): of every object, at every depth, exactly the properties named in
  the list are written, in the order of the list; arrays keep all their elements.
  \<open>js_select\<close> is the value that is written, \<open>js_encode\<close> its text.
\<close>

definition js_pick :: "string list \<Rightarrow> (string \<times> json) list \<Rightarrow> (string \<times> json) list" where
  "js_pick K props =
     concat (map (\<lambda>k. case map_of props k of None \<Rightarrow> [] | Some v \<Rightarrow> [(k, v)]) K)"

fun js_select :: "string list \<Rightarrow> json \<Rightarrow> json"
  and js_selectElems :: "string list \<Rightarrow> json list \<Rightarrow> json list"
  and js_selectProps :: "string list \<Rightarrow> (string \<times> json) list \<Rightarrow> (string \<times> json) list" where
  "js_select K (JObject props) = JObject (js_pick K (js_selectProps K props))"
| "js_select K (JArray xs) = JArray (js_selectElems K xs)"
| "js_select K JNull = JNull"
| "js_select K (JBool b) = JBool b"
| "js_select K (JInt i) = JInt i"
| "js_select K (JFloat x) = JFloat x"
| "js_select K (JString s) = JString s"
| "js_selectElems K [] = []"
| "js_selectElems K (x # xs) = js_select K x # js_selectElems K xs"
| "js_selectProps K [] = []"
| "js_selectProps K ((k, v) # props) = (k, js_select K v) # js_selectProps K props"

text \<open>
  QuoteJSONString on the UTF-8 bytes of a well-formed string: the quote, the backslash
  and the control characters are escaped, every other byte is copied.
\<close>

definition js_escape :: "char \<Rightarrow> string" where
  "js_escape c =
     (let n = (of_char c :: nat) in
      if n = 8 then [CHR 0x5C, CHR ''b'']
      else if n = 9 then [CHR 0x5C, CHR ''t'']
      else if n = 10 then [CHR 0x5C, CHR ''n'']
      else if n = 12 then [CHR 0x5C, CHR ''f'']
      else if n = 13 then [CHR 0x5C, CHR ''r'']
      else if n = 34 then [CHR 0x5C, CHR 0x22]
      else if n = 92 then [CHR 0x5C, CHR 0x5C]
      else if n < 32 then [CHR 0x5C, CHR ''u'', CHR ''0'', CHR ''0'', hexdigit (n div 16), hexdigit n]
      else [c])"

definition js_quote :: "string \<Rightarrow> string" where
  "js_quote s = [CHR 0x22] @ concat (map js_escape s) @ [CHR 0x22]"

text \<open>
  The text of a value. An integral number below \<open>10^21\<close> in absolute value is written in
  decimal digits; the text of any other number is left to the parameter \<open>numberToString\<close>.
\<close>

fun js_encode :: "(real \<Rightarrow> string) \<Rightarrow> json \<Rightarrow> string"
  and js_encodeProps :: "(real \<Rightarrow> string) \<Rightarrow> (string \<times> json) list \<Rightarrow> string list"
  and js_encodeElems :: "(real \<Rightarrow> string) \<Rightarrow> json list \<Rightarrow> string list" where
  "js_encode numberToString JNull = ''null''"
| "js_encode numberToString (JBool b) = (if b then ''true'' else ''false'')"
| "js_encode numberToString (JInt i) = FormatInt i"
| "js_encode numberToString (JFloat x) = numberToString x"
| "js_encode numberToString (JString s) = js_quote s"
| "js_encode numberToString (JArray xs) =
     ''['' @ intercalate '','' (js_encodeElems numberToString xs) @ '']''"
| "js_encode numberToString (JObject props) =
     ''{'' @ intercalate '','' (js_encodeProps numberToString props) @ ''}''"
| "js_encodeProps numberToString [] = []"
| "js_encodeProps numberToString ((k, v) # props) =
     (js_quote k @ '':'' @ js_encode numberToString v) # js_encodeProps numberToString props"
| "js_encodeElems numberToString [] = []"
| "js_encodeElems numberToString (x # xs) =
     js_encode numberToString x # js_encodeElems numberToString xs"

definition JSON_stringify :: "(real \<Rightarrow> string) \<Rightarrow> json \<Rightarrow> string list \<Rightarrow> string" where
  "JSON_stringify numberToString v K = js_encode numberToString (js_select (rev (remdups (rev K))) v)"

definition ptrFloat :: "real option \<Rightarrow> json" where
  "ptrFloat p = (case p of None \<Rightarrow> JNull | Some x \<Rightarrow> JFloat x)"

definition execMeta_ts :: "ExecutionMeta \<Rightarrow> (string \<times> json) list" where
  "execMeta_ts em =
     (let m0 = [];
          m1 = (if ModelID em \<noteq> None then assign ''model_id'' (ptrString (ModelID em)) m0 else m0);
          m2 = assign ''seed'' (ptrInt (Seed em)) m1;
          m3 = assign ''sdk_version'' (JString (SDKVersion em)) m2;
          m4 = (if Temperature em \<noteq> None
                then assign ''temperature'' (ptrFloat (Temperature em)) m3 else m3);
          m5 = assign ''tool_calls'' (sliceValue (ToolCalls em)) m4
      in m5)"

definition mapJSON :: "(string \<times> json) list option \<Rightarrow> json" where
  "mapJSON m = (case m of None \<Rightarrow> JNull | Some kvs \<Rightarrow> JObject kvs)"

definition canonical_ts :: "FactoEventWire \<Rightarrow> (string \<times> json) list" where
  "canonical_ts event =
     (let c = [];
          c = assign ''action_type'' (JString (ActionType event)) c;
          c = assign ''agent_id'' (JString (AgentID event)) c;
          c = assign ''completed_at'' (JInt (CompletedAt event)) c;
          c = assign ''execution_meta'' (JObject (execMeta_ts (ExecutionMeta event))) c;
          c = assign ''input_data'' (mapJSON (InputData event)) c;
          c = assign ''output_data'' (mapJSON (OutputData event)) c;
          c = assign ''parent_facto_id'' (ptrString (ParentFactoID event)) c;
          c = assign ''prev_hash'' (JString (PrevHash (Proof event))) c;
          c = assign ''session_id'' (JString (SessionID event)) c;
          c = assign ''started_at'' (JInt (StartedAt event)) c;
          c = assign ''status'' (JString (Status event)) c;
          c = assign ''facto_id'' (JString (FactoID event)) c
      in c)"

text \<open>\<open>Object.keys(canonical).sort()\<close>: the keys in insertion order, then sorted.\<close>

definition buildCanonicalForm_ts :: "(real \<Rightarrow> string) \<Rightarrow> FactoEventWire \<Rightarrow> string" where
  "buildCanonicalForm_ts numberToString event =
     (let canonical = canonical_ts event
      in JSON_stringify numberToString (JObject canonical) (sort (map fst canonical)))"

section \<open>Verification endpoints (query API)\<close>

subsection \<open>encoding/base64\<close>

definition b64val :: "char \<Rightarrow> nat option" where
  "b64val c =
     (let n = (of_char c :: nat) in
      if 65 \<le> n \<and> n \<le> 90 then Some (n - 65)
      else if 97 \<le> n \<and> n \<le> 122 then Some (n - 97 + 26)
      else if 48 \<le> n \<and> n \<le> 57 then Some (n - 48 + 52)
      else if n = 43 then Some 62
      else if n = 47 then Some 63
      else None)"

definition b64group :: "char list \<Rightarrow> nat option" where
  "b64group cs =
     (if list_all (\<lambda>c. b64val c \<noteq> None) cs
      then Some (foldl (\<lambda>acc c. acc * 64 + the (b64val c)) 0 cs) else None)"

text \<open>
  The quanta of \<open>base64.StdEncoding\<close>: four characters give three bytes; the last
  quantum may end in one or two \<open>=\<close>; anything else is a \<open>CorruptInputError\<close>.
\<close>

fun b64quanta :: "string \<Rightarrow> string option" where
  "b64quanta [] = Some []"
| "b64quanta [a, b, c, d] =
     (if c = CHR ''='' \<and> d = CHR ''=''
      then (case b64group [a, b] of
              None \<Rightarrow> None
            | Some n \<Rightarrow> Some [char_of (n div 16)])
      else if d = CHR ''=''
      then (case b64group [a, b, c] of
              None \<Rightarrow> None
            | Some n \<Rightarrow> Some [char_of (n div 1024), char_of (n div 4)])
      else (case b64group [a, b, c, d] of
              None \<Rightarrow> None
            | Some n \<Rightarrow> Some [char_of (n div 65536), char_of (n div 256), char_of n]))"
| "b64quanta (a # b # c # d # rest) =
     (case b64group [a, b, c, d] of
        None \<Rightarrow> None
      | Some n \<Rightarrow>
          (case b64quanta rest of
             None \<Rightarrow> None
           | Some bs \<Rightarrow> Some (char_of (n div 65536) # char_of (n div 256) # char_of n # bs)))"
| "b64quanta _ = None"

text \<open>
  \<open>base64.StdEncoding.DecodeString\<close>: carriage returns and line feeds are skipped;
  \<open>None\<close> is a returned error.
\<close>

definition base64_DecodeString :: "string \<Rightarrow> string option" where
  "base64_DecodeString s =
     b64quanta (filter (\<lambda>c. (of_char c :: nat) \<noteq> 13 \<and> (of_char c :: nat) \<noteq> 10) s)"

subsection \<open>Single-event verification\<close>

definition verifyHash :: "golib \<Rightarrow> EventResponse \<Rightarrow> bool" where
  "verifyHash L event =
     (let canonical = buildCanonicalForm L event;
          hash = sha3_Sum256 L canonical;
          computedHash = EncodeToString hash
      in computedHash = EventHash (Proof event))"

text \<open>
  \<open>ed25519.Verify\<close> panics when the public key is not \<open>ed25519.PublicKeySize\<close> bytes
  long; the panic is the value \<open>None\<close>.
\<close>

definition PublicKeySize :: nat where
  "PublicKeySize = 32"

definition SignatureSize :: nat where
  "SignatureSize = 64"

definition ed25519_Verify_call :: "golib \<Rightarrow> string \<Rightarrow> string \<Rightarrow> string \<Rightarrow> bool option" where
  "ed25519_Verify_call L publicKey message sig =
     (if length publicKey \<noteq> PublicKeySize then None
      else Some (ed25519_Verify L publicKey message sig))"

definition verifySignature :: "golib \<Rightarrow> EventResponse \<Rightarrow> bool option" where
  "verifySignature L event =
     (case base64_DecodeString (PublicKey (Proof event)) of
        None \<Rightarrow> Some False
      | Some pubKeyBytes \<Rightarrow>
          if length pubKeyBytes \<noteq> PublicKeySize then Some False
          else (case base64_DecodeString (Signature (Proof event)) of
                  None \<Rightarrow> Some False
                | Some sigBytes \<Rightarrow>
                    if length sigBytes \<noteq> SignatureSize then Some False
                    else ed25519_Verify_call L pubKeyBytes (buildCanonicalForm L event) sigBytes))"

text \<open>
  What a handler leaves behind: a status with a body, or a panic (which \<open>gin.Recovery\<close>
  turns into an empty 500 answer).
\<close>

datatype 'a response = Panic | BadRequest | NotFound | InternalServerError | OK 'a

record VerifyCheck =
  HashValid :: bool
  SignatureValid :: bool
  ChainValid :: "bool option"

record VerifyResponse =
  Valid :: bool
  Checks :: VerifyCheck

text \<open>\<open>VerifyEvent\<close>; the request is \<open>None\<close> when the body does not bind.\<close>

definition VerifyEvent :: "golib \<Rightarrow> EventResponse option \<Rightarrow> VerifyResponse response" where
  "VerifyEvent L req =
     (case req of
        None \<Rightarrow> BadRequest
      | Some event \<Rightarrow>
          (let hashValid = verifyHash L event
           in (case verifySignature L event of
                 None \<Rightarrow> Panic
               | Some signatureValid \<Rightarrow>
                   OK \<lparr>Valid = hashValid \<and> signatureValid,
                       Checks = \<lparr>HashValid = hashValid, SignatureValid = signatureValid,
                                 ChainValid = None\<rparr>\<rparr>)))"

subsection \<open>Whole-chain verification\<close>

record ChainVerifyChecks =
  AllHashesValid :: bool
  AllSignaturesValid :: bool
  ChainIntegrityValid :: bool

text \<open>
  \<open>ChainVerifyResponse\<close>; its fields \<open>Valid\<close> and \<open>Checks\<close> are \<open>chain_Valid\<close> and
  \<open>chain_Checks\<close> here, the plain names being taken by \<open>VerifyResponse\<close>.
\<close>

record ChainVerifyResponse =
  chain_Valid :: bool
  EventCount :: nat
  chain_Checks :: ChainVerifyChecks
  FirstEvent :: string
  LastEvent :: string
  SessionHash :: string
  Errors :: "string list"

text \<open>The slice expression \<open>s[:16]\<close>: a run-time panic when \<open>s\<close> is shorter.\<close>

definition slice16 :: "string \<Rightarrow> string option" where
  "slice16 s = (if length s < 16 then None else Some (take 16 s))"

fun hashesLoop :: "golib \<Rightarrow> EventResponse list \<Rightarrow> ChainVerifyResponse \<Rightarrow> ChainVerifyResponse" where
  "hashesLoop L [] response = response"
| "hashesLoop L (event # rest) response =
     (if \<not> verifyHash L event
      then hashesLoop L rest
             (response\<lparr>chain_Checks := (chain_Checks response)\<lparr>AllHashesValid := False\<rparr>,
                        Errors := Errors response @ [''Hash invalid for event: '' @ FactoID event]\<rparr>)
      else hashesLoop L rest response)"

fun signaturesLoop ::
  "golib \<Rightarrow> EventResponse list \<Rightarrow> ChainVerifyResponse \<Rightarrow> ChainVerifyResponse option" where
  "signaturesLoop L [] response = Some response"
| "signaturesLoop L (event # rest) response =
     (case verifySignature L event of
        None \<Rightarrow> None
      | Some valid \<Rightarrow>
          if \<not> valid
          then signaturesLoop L rest
                 (response\<lparr>chain_Checks := (chain_Checks response)\<lparr>AllSignaturesValid := False\<rparr>,
                            Errors := Errors response
                                        @ [''Signature invalid for event: '' @ FactoID event]\<rparr>)
          else signaturesLoop L rest response)"

text \<open>
  The loop over the \<open>prev_hash\<close> links (lines 603 to 613). The error text slices both
  hashes, so building it can panic: \<open>None\<close>.
\<close>

fun chainLoop ::
  "string \<Rightarrow> EventResponse list \<Rightarrow> ChainVerifyResponse \<Rightarrow> ChainVerifyResponse option" where
  "chainLoop expectedPrevHash [] response = Some response"
| "chainLoop expectedPrevHash (event # rest) response =
     (if PrevHash (Proof event) \<noteq> expectedPrevHash
      then (case slice16 expectedPrevHash of
              None \<Rightarrow> None
            | Some expected16 \<Rightarrow>
                (case slice16 (PrevHash (Proof event)) of
                   None \<Rightarrow> None
                 | Some got16 \<Rightarrow>
                     chainLoop (EventHash (Proof event)) rest
                       (response\<lparr>chain_Checks :=
                                    (chain_Checks response)\<lparr>ChainIntegrityValid := False\<rparr>,
                                  Errors := Errors response
                                    @ [''Chain broken at event: '' @ FactoID event
                                       @ '' (expected prev_hash: '' @ expected16
                                       @ ''..., got: '' @ got16 @ ''...)'']\<rparr>)))
      else chainLoop (EventHash (Proof event)) rest response)"

definition zeroHash :: string where
  "zeroHash = replicate 64 CHR ''0''"

text \<open>
  \<open>VerifyChain\<close>. The query is \<open>None\<close> when \<open>session_id\<close> does not bind; the storage call
  \<open>GetSessionEvents(ctx, id, 10000, "")\<close> is the argument \<open>fetch\<close>, \<open>None\<close> being its error.
  \<open>sort.Slice\<close> is not stable: the order it gives to events of equal \<open>CompletedAt\<close> is not
  specified, and \<open>sort_key\<close> (which keeps them in their order) is one of the orders it
  may give.
\<close>

definition VerifyChain ::
  "golib \<Rightarrow> (string \<Rightarrow> EventResponse list option) \<Rightarrow> string option
     \<Rightarrow> ChainVerifyResponse response" where
  "VerifyChain L fetch query =
     (case query of
        None \<Rightarrow> BadRequest
      | Some sessionID \<Rightarrow>
          (case fetch sessionID of
             None \<Rightarrow> InternalServerError
           | Some fetched \<Rightarrow>
               if length fetched = 0 then NotFound
               else
                 (let events = sort_key CompletedAt fetched;
                      response = \<lparr>chain_Valid = False,
                                  EventCount = length events,
                                  chain_Checks = \<lparr>AllHashesValid = True,
                                                   AllSignaturesValid = True,
                                                   ChainIntegrityValid = True\<rparr>,
                                  FirstEvent = FactoID (events ! 0),
                                  LastEvent = FactoID (events ! (length events - 1)),
                                  SessionHash = [],
                                  Errors = []\<rparr>;
                      response = hashesLoop L events response
                  in (case signaturesLoop L events response of
                        None \<Rightarrow> Panic
                      | Some response \<Rightarrow>
                          (case chainLoop zeroHash events response of
                             None \<Rightarrow> Panic
                           | Some response \<Rightarrow>
                               (let hashConcat = concat (map (\<lambda>event. EventHash (Proof event)) events);
                                    response = response\<lparr>SessionHash :=
                                                 EncodeToString (sha256 hashConcat)\<rparr>;
                                    response = response\<lparr>chain_Valid :=
                                        AllHashesValid (chain_Checks response)
                                      \<and> AllSignaturesValid (chain_Checks response)
                                      \<and> ChainIntegrityValid (chain_Checks response)\<rparr>
                                in OK response))))))"

section \<open>Storage\<close>

text \<open>
  The database is an external collaborator. A table is the list of the rows written to
  it, a column holds the value bound to it by the \<open>INSERT\<close>, and a read returns a column
  as it was written. A \<open>time.Time\<close> is its \<open>UnixNano\<close>; a \<open>blob\<close> or \<open>text\<close> column that
  holds a JSON document (\<open>json.Marshal\<close> of a value, read with \<open>json.Unmarshal\<close>) holds
  the value. The overwriting of a row by a later row with the same primary key is not
  modelled.
\<close>

text \<open>The column \<open>x\<close> of a row is the field \<open>col_x\<close>.\<close>

record SessionRow =
  col_session_id :: string
  col_completed_at :: int
  col_facto_id :: string
  col_agent_id :: string
  col_action_type :: string
  col_status :: string
  col_event_hash :: string
  col_input_data :: json
  col_output_data :: json
  col_model_id :: string
  col_temperature :: real
  col_sdk_version :: string
  col_sdk_language :: string
  col_tags :: "(string \<times> string) list option"
  col_signature :: string
  col_public_key :: string
  col_prev_hash :: string
  col_parent_facto_id :: string
  col_started_at :: int
  col_received_at :: int

text \<open>
  The tables \<open>events\<close> and \<open>events_by_facto_id\<close> have the columns of \<open>events_by_session\<close>
  and five more.
\<close>

record EventRow = SessionRow +
  col_date :: int
  col_model_hash :: string
  col_seed :: int
  col_max_tokens :: int
  col_tool_calls :: json

record MerkleRootRow =
  date :: int
  bucket_time :: int
  root_hash :: string
  event_count :: nat
  first_facto_id :: string
  last_facto_id :: string
  event_hashes :: "string list"
  created_at :: int

record Tables =
  tbl_events :: "EventRow list"
  tbl_events_by_facto_id :: "EventRow list"
  tbl_events_by_session :: "SessionRow list"
  tbl_merkle_roots :: "MerkleRootRow list"

subsection \<open>Processor: writes\<close>

text \<open>\<open>eventData\<close>; its field \<open>x\<close> is \<open>ed_x\<close>.\<close>

record eventData =
  ed_event :: FactoEvent
  ed_inputData :: json
  ed_outputData :: json
  ed_toolCalls :: json
  ed_completedTime :: int
  ed_eventDate :: int
  ed_modelID :: string
  ed_modelHash :: string
  ed_sdkVersion :: string
  ed_sdkLanguage :: string
  ed_temperature :: real
  ed_seed :: int
  ed_maxTokens :: int
  ed_parentFactoID :: string

text \<open>\<open>t.UTC().Truncate(24 * time.Hour)\<close> on nanoseconds since the epoch.\<close>

definition truncateDay :: "int \<Rightarrow> int" where
  "truncateDay t = t - t mod 86400000000000"

text \<open>The body of the pre-processing loop of \<open>StoreBatch\<close>.\<close>

definition preprocess :: "golib \<Rightarrow> FactoEvent \<Rightarrow> eventData" where
  "preprocess L ev =
     (let em = ExecutionMeta ev;
          completedTime = CompletedAt ev
      in \<lparr>ed_event = ev,
          ed_inputData = mapJSON (InputData ev),
          ed_outputData = mapJSON (OutputData ev),
          ed_toolCalls = sliceValue (ToolCalls em),
          ed_completedTime = completedTime,
          ed_eventDate = truncateDay completedTime,
          ed_modelID = (case ModelID em of None \<Rightarrow> [] | Some s \<Rightarrow> s),
          ed_modelHash = (case ModelHash em of None \<Rightarrow> [] | Some s \<Rightarrow> s),
          ed_sdkVersion = SDKVersion em,
          ed_sdkLanguage = SDKLanguage em,
          ed_temperature = (case Temperature em of None \<Rightarrow> 0 | Some t \<Rightarrow> float32 L t),
          ed_seed = (case Seed em of None \<Rightarrow> 0 | Some s \<Rightarrow> s),
          ed_maxTokens = (case MaxTokens em of None \<Rightarrow> 0 | Some m \<Rightarrow> m),
          ed_parentFactoID = (case ParentFactoID ev of None \<Rightarrow> [] | Some s \<Rightarrow> s)\<rparr>)"

text \<open>The values bound by the three \<open>INSERT\<close> statements; \<open>now\<close> is \<open>time.Now()\<close>.\<close>

definition sessionRow :: "int \<Rightarrow> eventData \<Rightarrow> SessionRow" where
  "sessionRow now e =
     \<lparr>col_session_id = SessionID (ed_event e),
      col_completed_at = ed_completedTime e,
      col_facto_id = FactoID (ed_event e),
      col_agent_id = AgentID (ed_event e),
      col_action_type = ActionType (ed_event e),
      col_status = Status (ed_event e),
      col_event_hash = EventHash (Proof (ed_event e)),
      col_input_data = ed_inputData e,
      col_output_data = ed_outputData e,
      col_model_id = ed_modelID e,
      col_temperature = ed_temperature e,
      col_sdk_version = ed_sdkVersion e,
      col_sdk_language = ed_sdkLanguage e,
      col_tags = Tags (ExecutionMeta (ed_event e)),
      col_signature = Signature (Proof (ed_event e)),
      col_public_key = PublicKey (Proof (ed_event e)),
      col_prev_hash = PrevHash (Proof (ed_event e)),
      col_parent_facto_id = ed_parentFactoID e,
      col_started_at = StartedAt (ed_event e),
      col_received_at = now\<rparr>"

definition eventRow :: "int \<Rightarrow> eventData \<Rightarrow> EventRow" where
  "eventRow now e =
     SessionRow.extend (sessionRow now e)
       (EventRow.fields (ed_eventDate e) (ed_modelHash e) (ed_seed e) (ed_maxTokens e) (ed_toolCalls e))"

text \<open>
  One \<open>ExecuteBatch\<close>: the rows are written and \<open>nil\<close> is returned, or nothing is written
  and an error is returned; which of the two is the environment's choice \<open>ok\<close>. The
  result is the table and whether an error was returned.
\<close>

definition ExecuteBatch :: "bool \<Rightarrow> 'r list \<Rightarrow> 'r list \<Rightarrow> 'r list \<times> bool" where
  "ExecuteBatch ok tbl rows = (if ok then (tbl @ rows, False) else (tbl, True))"

text \<open>The environment's choices during one flush.\<close>

record Outcome =
  events_ok :: bool
  by_facto_id_ok :: bool
  by_session_ok :: bool
  merkle_root_ok :: bool

definition storeEventsBatch :: "int \<Rightarrow> bool \<Rightarrow> Tables \<Rightarrow> eventData list \<Rightarrow> Tables \<times> bool" where
  "storeEventsBatch now ok db events =
     (let (tbl, err) = ExecuteBatch ok (tbl_events db) (map (eventRow now) events)
      in (db\<lparr>tbl_events := tbl\<rparr>, err))"

definition storeByFactoIDBatch :: "int \<Rightarrow> bool \<Rightarrow> Tables \<Rightarrow> eventData list \<Rightarrow> Tables \<times> bool" where
  "storeByFactoIDBatch now ok db events =
     (let (tbl, err) = ExecuteBatch ok (tbl_events_by_facto_id db) (map (eventRow now) events)
      in (db\<lparr>tbl_events_by_facto_id := tbl\<rparr>, err))"

definition storeBySessionBatch :: "int \<Rightarrow> bool \<Rightarrow> Tables \<Rightarrow> eventData list \<Rightarrow> Tables \<times> bool" where
  "storeBySessionBatch now ok db events =
     (let (tbl, err) = ExecuteBatch ok (tbl_events_by_session db) (map (sessionRow now) events)
      in (db\<lparr>tbl_events_by_session := tbl\<rparr>, err))"

text \<open>
  \<open>StoreBatch\<close>. The three batches run in three goroutines and write three different
  tables, so the order in which they run does not show; \<open>g.Wait()\<close> returns an error
  when one of them did.
\<close>

definition StoreBatch :: "golib \<Rightarrow> int \<Rightarrow> Outcome \<Rightarrow> Tables \<Rightarrow> FactoEvent list \<Rightarrow> Tables \<times> bool" where
  "StoreBatch L now oc db events =
     (let processedEvents = map (preprocess L) events;
          (db, err1) = storeEventsBatch now (events_ok oc) db processedEvents;
          (db, err2) = storeByFactoIDBatch now (by_facto_id_ok oc) db processedEvents;
          (db, err3) = storeBySessionBatch now (by_session_ok oc) db processedEvents
      in (db, err1 \<or> err2 \<or> err3))"

definition StoreMerkleRoot ::
  "int \<Rightarrow> bool \<Rightarrow> Tables \<Rightarrow> int \<Rightarrow> string \<Rightarrow> nat \<Rightarrow> string \<Rightarrow> string \<Rightarrow> string list
     \<Rightarrow> Tables \<times> bool" where
  "StoreMerkleRoot now ok db bucketTime rootHash eventCount firstFactoID lastFactoID eventHashes =
     (let row = \<lparr>date = truncateDay bucketTime, bucket_time = bucketTime,
                 root_hash = rootHash, event_count = eventCount,
                 first_facto_id = firstFactoID, last_facto_id = lastFactoID,
                 event_hashes = eventHashes, created_at = now\<rparr>
      in if ok then (db\<lparr>tbl_merkle_roots := tbl_merkle_roots db @ [row]\<rparr>, False)
         else (db, True))"

subsection \<open>Query API: reads\<close>

definition buildEventResponse ::
  "string \<Rightarrow> string \<Rightarrow> string \<Rightarrow> string \<Rightarrow> string \<Rightarrow> string \<Rightarrow> json \<Rightarrow> json
     \<Rightarrow> string \<Rightarrow> string \<Rightarrow> real \<Rightarrow> int \<Rightarrow> int \<Rightarrow> json \<Rightarrow> string \<Rightarrow> string
     \<Rightarrow> (string \<times> string) list option \<Rightarrow> string \<Rightarrow> string \<Rightarrow> string \<Rightarrow> string
     \<Rightarrow> int \<Rightarrow> int \<Rightarrow> EventResponse" where
  "buildEventResponse factoID agentID sessionID parentFactoID actionType status inputData outputData
       modelID modelHash temperature seed maxTokens toolCalls sdkVersion sdkLanguage
       tags signature publicKey prevHash eventHash startedAt completedAt =
     (let input = (case inputData of JObject kvs \<Rightarrow> Some kvs | _ \<Rightarrow> None);
          output = (case outputData of JObject kvs \<Rightarrow> Some kvs | _ \<Rightarrow> None);
          tools = (case toolCalls of JArray xs \<Rightarrow> Some xs | _ \<Rightarrow> None);
          modelIDPtr = (if modelID \<noteq> [] then Some modelID else None);
          modelHashPtr = (if modelHash \<noteq> [] then Some modelHash else None);
          tempPtr = (if temperature \<noteq> 0 then Some temperature else None);
          seedPtr = (if seed \<noteq> 0 then Some seed else None);
          maxTokensPtr = (if maxTokens \<noteq> 0 then Some maxTokens else None);
          parentPtr = (if parentFactoID \<noteq> [] then Some parentFactoID else None);
          tags = (if tags = None then Some [] else tags);
          tools = (if tools = None then Some [] else tools);
          input = (if input = None then Some [] else input);
          output = (if output = None then Some [] else output)
      in \<lparr>FactoID = factoID,
          AgentID = agentID,
          SessionID = sessionID,
          ParentFactoID = parentPtr,
          ActionType = actionType,
          Status = status,
          InputData = input,
          OutputData = output,
          ExecutionMeta =
            \<lparr>ModelID = modelIDPtr, ModelHash = modelHashPtr, Temperature = tempPtr,
             Seed = seedPtr, MaxTokens = maxTokensPtr, ToolCalls = tools,
             SDKVersion = sdkVersion, SDKLanguage = sdkLanguage, Tags = tags\<rparr>,
          Proof = \<lparr>Signature = signature, PublicKey = publicKey,
                   PrevHash = prevHash, EventHash = eventHash\<rparr>,
          StartedAt = startedAt,
          CompletedAt = completedAt\<rparr>)"

text \<open>
  The body of the scan loop of \<open>GetSessionEvents\<close>: the table has no \<open>model_hash\<close>,
  \<open>seed\<close>, \<open>max_tokens\<close> or \<open>tool_calls\<close> column and the call passes \<open>""\<close>, \<open>0\<close>, \<open>0\<close> and
  \<open>"[]"\<close> for them.
\<close>

definition scanSessionRow :: "SessionRow \<Rightarrow> EventResponse" where
  "scanSessionRow r =
     buildEventResponse (col_facto_id r) (col_agent_id r) (col_session_id r) (col_parent_facto_id r)
       (col_action_type r) (col_status r) (col_input_data r) (col_output_data r)
       (col_model_id r) [] (col_temperature r) 0 0 (JArray [])
       (col_sdk_version r) (col_sdk_language r) (col_tags r)
       (col_signature r) (col_public_key r) (col_prev_hash r) (col_event_hash r)
       (col_started_at r) (col_completed_at r)"

text \<open>The body of the scan of \<open>GetEvents\<close> and of \<open>GetEventByFactoID\<close>.\<close>

definition scanEventRow :: "EventRow \<Rightarrow> EventResponse" where
  "scanEventRow r =
     buildEventResponse (col_facto_id r) (col_agent_id r) (col_session_id r) (col_parent_facto_id r)
       (col_action_type r) (col_status r) (col_input_data r) (col_output_data r)
       (col_model_id r) (col_model_hash r) (col_temperature r) (col_seed r) (col_max_tokens r) (col_tool_calls r)
       (col_sdk_version r) (col_sdk_language r) (col_tags r)
       (col_signature r) (col_public_key r) (col_prev_hash r) (col_event_hash r)
       (col_started_at r) (col_completed_at r)"

text \<open>
  \<open>GetSessionEvents\<close>: the rows of the session in clustering order, at most \<open>limit + 1\<close>
  of them; the scan loop stops once more than \<open>limit\<close> events are collected, and the
  result is cut to \<open>limit\<close>. \<open>ok\<close> is whether \<open>iter.Close()\<close> returns \<open>nil\<close>. The cursor is
  left out.
\<close>

definition GetSessionEvents :: "bool \<Rightarrow> Tables \<Rightarrow> nat \<Rightarrow> string \<Rightarrow> EventResponse list option" where
  "GetSessionEvents ok db limit sessionID =
     (let rows = take (limit + 1)
                   (sort_key col_completed_at
                      (filter (\<lambda>r. col_session_id r = sessionID) (tbl_events_by_session db)));
          events = take (limit + 1) (map scanSessionRow rows)
      in if \<not> ok then None
         else Some (if length events > limit then take limit events else events))"

definition GetEventByFactoID :: "bool \<Rightarrow> Tables \<Rightarrow> string \<Rightarrow> EventResponse option option" where
  "GetEventByFactoID ok db factoID =
     (if \<not> ok then None
      else (case filter (\<lambda>r. col_facto_id r = factoID) (tbl_events_by_facto_id db) of
              [] \<Rightarrow> Some None
            | r # _ \<Rightarrow> Some (Some (scanEventRow r))))"

section \<open>Batching processor\<close>

text \<open>
  A \<open>jetstream.Msg\<close> is its payload and the sequence number that tells two messages with
  the same payload apart. \<open>Ack()\<close> and \<open>Nak()\<close> are recorded, in order, in \<open>acks\<close>; the
  database the consumer's \<open>storage\<close> handle points to is the field \<open>storage\<close>. Metrics and
  log lines are left out.
\<close>

record Msg =
  Sequence :: nat
  Data :: string

datatype ack = Ack Msg | Nak Msg

record Consumer =
  batchSize :: int
  events :: "FactoEvent list"
  messages :: "Msg list"
  storage :: Tables
  acks :: "ack list"

text \<open>
  \<open>flush\<close>. \<open>None\<close> is the case that \<open>BuildMerkleTree\<close> does not return. \<open>now\<close> is the clock;
  the database's answers are \<open>oc\<close>.
\<close>

definition flush :: "golib \<Rightarrow> int \<Rightarrow> Outcome \<Rightarrow> Consumer \<Rightarrow> Consumer option" where
  "flush L now oc c =
     (if length (events c) = 0 then Some c
      else
        (let eventCount = length (events c);
             hashes = map (\<lambda>event. EventHash (Proof event)) (events c)
         in (case BuildMerkleTree hashes of
               None \<Rightarrow> None
             | Some (h, tree) \<Rightarrow>
                 (let merkleRoot = Root h tree;
                      (db, err) = StoreBatch L now oc (storage c) (events c);
                      c = (if err
                           then c\<lparr>storage := db, acks := acks c @ map Nak (messages c)\<rparr>
                           else
                             (let db = (if length (events c) > 0
                                        then fst (StoreMerkleRoot now (merkle_root_ok oc) db now
                                                    merkleRoot eventCount
                                                    (FactoID (events c ! 0))
                                                    (FactoID (events c ! (length (events c) - 1)))
                                                    hashes)
                                        else db)
                              in c\<lparr>storage := db, acks := acks c @ map Ack (messages c)\<rparr>))
                  in Some (c\<lparr>events := [], messages := []\<rparr>)))))"

definition handleMessage :: "golib \<Rightarrow> int \<Rightarrow> Outcome \<Rightarrow> Consumer \<Rightarrow> Msg \<Rightarrow> Consumer option" where
  "handleMessage L now oc c msg =
     (case Unmarshal L (Data msg) of
        None \<Rightarrow> Some (c\<lparr>acks := acks c @ [Nak msg]\<rparr>)
      | Some ev \<Rightarrow>
          (let c = c\<lparr>events := events c @ [ev], messages := messages c @ [msg]\<rparr>
           in if int (length (events c)) \<ge> batchSize c then flush L now oc c else Some c))"

text \<open>\<open>NewConsumer\<close>, connection set-up left out.\<close>

definition NewConsumer :: "Tables \<Rightarrow> int \<Rightarrow> Consumer" where
  "NewConsumer st n = \<lparr>batchSize = n, events = [], messages = [], storage = st, acks = []\<rparr>"

text \<open>
  The states of the consumer while \<open>Start\<close> runs: each turn of its \<open>select\<close> handles a
  message, or flushes a non-empty buffer on a tick, or flushes a non-empty buffer on
  cancellation.
\<close>

inductive reachable :: "golib \<Rightarrow> Consumer \<Rightarrow> bool" for L :: golib where
  start: "reachable L (NewConsumer st n)"
| message: "reachable L c \<Longrightarrow> handleMessage L now oc c msg = Some c' \<Longrightarrow> reachable L c'"
| tick: "reachable L c \<Longrightarrow> length (events c) > 0 \<Longrightarrow> flush L now oc c = Some c'
           \<Longrightarrow> reachable L c'"

section \<open>Properties of the Merkle engine\<close>

lemma new_leaves_spec:
  "new_leaves h xs = (h @ map leaf_node xs, [length h ..< length h + length xs])"
proof (induction xs arbitrary: h)
  case Nil
  then show ?case by simp
next
  case (Cons x xs)
  have "[length h ..< length h + length (x # xs)] = length h # [Suc (length h) ..< Suc (length h) + length xs]"
    by (subst upt_rec) simp
  with Cons show ?case
    by (simp add: new_node_def)
qed

lemma length_pairHashes: "length (pairHashes ys) = length ys div 2"
  by (induction ys rule: pairHashes.induct) auto

lemma pairUp_spec:
  assumes "even (length ns)" "distinct ns" "\<forall>a\<in>set ns. a < length h"
  shows "case pairUp h ns of (h', ps) \<Rightarrow>
    length h' = length h + length ns div 2 \<and>
    ps = [length h ..< length h + length ns div 2] \<and>
    (\<forall>a < length h. a \<notin> set ns \<longrightarrow> h' ! a = h ! a) \<and>
    (\<forall>i < length ns. h' ! (ns ! i) = (h ! (ns ! i))\<lparr>Parent := Some (length h + i div 2)\<rparr>) \<and>
    (\<forall>j < length ns div 2. h' ! (length h + j) =
        \<lparr>Hash = hashPair (Hash (h ! (ns ! (2 * j)))) (Hash (h ! (ns ! (2 * j + 1)))),
         Left = Some (ns ! (2 * j)), Right = Some (ns ! (2 * j + 1)), Parent = None\<rparr>)"
  using assms
proof (induction h ns rule: pairUp.induct)
  case (1 h)
  then show ?case by simp
next
  case (2 h l)
  then show ?case by simp
next
  case (3 h l r rest)
  define pn where "pn = \<lparr>Hash = hashPair (Hash (h ! l)) (Hash (h ! r)),
                                 Left = Some l, Right = Some r, Parent = None\<rparr>"
  define h2 where "h2 = set_Parent (set_Parent (h @ [pn]) l (length h)) r (length h)"
  obtain h3 ps where pu: "pairUp h2 rest = (h3, ps)" by (cases "pairUp h2 rest")
  have lr: "l < length h" "r < length h" "l \<noteq> r" "l \<notin> set rest" "r \<notin> set rest"
    using 3(2,3,4) by auto
  have len2: "length h2 = Suc (length h)" by (simp add: h2_def set_Parent_def)
  have h2l: "h2 ! l = (h ! l)\<lparr>Parent := Some (length h)\<rparr>"
    using lr by (simp add: h2_def set_Parent_def nth_append nth_list_update)
  have h2r: "h2 ! r = (h ! r)\<lparr>Parent := Some (length h)\<rparr>"
    using lr by (simp add: h2_def set_Parent_def nth_append nth_list_update)
  have h2p: "h2 ! length h = pn"
    using lr by (simp add: h2_def set_Parent_def nth_append nth_list_update)
  have h2o: "a < length h \<Longrightarrow> a \<noteq> l \<Longrightarrow> a \<noteq> r \<Longrightarrow> h2 ! a = h ! a" for a
    by (simp add: h2_def set_Parent_def nth_append nth_list_update)
  have pre: "even (length rest)" "distinct rest" "\<forall>a\<in>set rest. a < length h2"
    using 3(2,3,4) len2 by auto
  have eq: "pairUp h (l # r # rest) = (h3, length h # ps)"
    using pu by (simp add: new_node_def pn_def h2_def)
  have restlt: "\<And>a. a \<in> set rest \<Longrightarrow> a < length h \<and> a \<noteq> l \<and> a \<noteq> r"
    using 3(3,4) by auto
  have IH: "length h3 = length h2 + length rest div 2"
    "ps = [length h2 ..< length h2 + length rest div 2]"
    "\<And>a. a < length h2 \<Longrightarrow> a \<notin> set rest \<Longrightarrow> h3 ! a = h2 ! a"
    "\<And>i. i < length rest \<Longrightarrow> h3 ! (rest ! i) = (h2 ! (rest ! i))\<lparr>Parent := Some (length h2 + i div 2)\<rparr>"
    "\<And>j. j < length rest div 2 \<Longrightarrow> h3 ! (length h2 + j) =
        \<lparr>Hash = hashPair (Hash (h2 ! (rest ! (2 * j)))) (Hash (h2 ! (rest ! (2 * j + 1)))),
         Left = Some (rest ! (2 * j)), Right = Some (rest ! (2 * j + 1)), Parent = None\<rparr>"
  proof -
    have "case pairUp h2 rest of (h', ps) \<Rightarrow>
      length h' = length h2 + length rest div 2 \<and>
      ps = [length h2 ..< length h2 + length rest div 2] \<and>
      (\<forall>a < length h2. a \<notin> set rest \<longrightarrow> h' ! a = h2 ! a) \<and>
      (\<forall>i < length rest. h' ! (rest ! i) = (h2 ! (rest ! i))\<lparr>Parent := Some (length h2 + i div 2)\<rparr>) \<and>
      (\<forall>j < length rest div 2. h' ! (length h2 + j) =
        \<lparr>Hash = hashPair (Hash (h2 ! (rest ! (2 * j)))) (Hash (h2 ! (rest ! (2 * j + 1)))),
         Left = Some (rest ! (2 * j)), Right = Some (rest ! (2 * j + 1)), Parent = None\<rparr>)"
      by (rule "3.IH"[where x = "new_node h pn" and xa = "h @ [pn]" and y = "length h" and xb = h2])
         (use pre in \<open>simp_all add: pn_def new_node_def h2_def\<close>)
    then show "length h3 = length h2 + length rest div 2"
    "ps = [length h2 ..< length h2 + length rest div 2]"
    "\<And>a. a < length h2 \<Longrightarrow> a \<notin> set rest \<Longrightarrow> h3 ! a = h2 ! a"
    "\<And>i. i < length rest \<Longrightarrow> h3 ! (rest ! i) = (h2 ! (rest ! i))\<lparr>Parent := Some (length h2 + i div 2)\<rparr>"
    "\<And>j. j < length rest div 2 \<Longrightarrow> h3 ! (length h2 + j) =
        \<lparr>Hash = hashPair (Hash (h2 ! (rest ! (2 * j)))) (Hash (h2 ! (rest ! (2 * j + 1)))),
         Left = Some (rest ! (2 * j)), Right = Some (rest ! (2 * j + 1)), Parent = None\<rparr>"
      using pu by auto
  qed
  have c1: "length h3 = length h + length (l # r # rest) div 2"
    using IH(1) len2 by simp
  have c2: "length h # ps = [length h ..< length h + length (l # r # rest) div 2]"
    using IH(2) len2 by (simp add: upt_conv_Cons)
  have c3: "\<forall>a < length h. a \<notin> set (l # r # rest) \<longrightarrow> h3 ! a = h ! a"
    using IH(3) len2 h2o by auto
  have c4: "h3 ! ((l # r # rest) ! i) = (h ! ((l # r # rest) ! i))\<lparr>Parent := Some (length h + i div 2)\<rparr>"
    if "i < length (l # r # rest)" for i
  proof (cases i)
    case 0
    then show ?thesis using IH(3)[of l] lr len2 h2l by simp
  next
    case (Suc i1)
    show ?thesis
    proof (cases i1)
      case 0
      then show ?thesis using Suc IH(3)[of r] lr len2 h2r by simp
    next
      case (Suc i2)
      have "i2 < length rest" using that \<open>i = Suc i1\<close> Suc by simp
      then have "rest ! i2 \<in> set rest" by simp
      then have "h2 ! (rest ! i2) = h ! (rest ! i2)" using restlt h2o by blast
      then show ?thesis using IH(4)[OF \<open>i2 < length rest\<close>] \<open>i = Suc i1\<close> Suc len2 by simp
    qed
  qed
  have c5: "h3 ! (length h + j) =
        \<lparr>Hash = hashPair (Hash (h ! ((l # r # rest) ! (2 * j)))) (Hash (h ! ((l # r # rest) ! (2 * j + 1)))),
         Left = Some ((l # r # rest) ! (2 * j)), Right = Some ((l # r # rest) ! (2 * j + 1)), Parent = None\<rparr>"
    if "j < length (l # r # rest) div 2" for j
  proof (cases j)
    case 0
    have "length h \<notin> set rest" using restlt by blast
    then have "h3 ! length h = pn" using IH(3)[of "length h"] len2 h2p by simp
    then show ?thesis using 0 by (simp add: pn_def)
  next
    case (Suc j1)
    have j1: "j1 < length rest div 2" using that Suc by simp
    then have a: "2 * j1 < length rest" "2 * j1 + 1 < length rest" using pre(1) by auto
    then have "rest ! (2 * j1) \<in> set rest" "rest ! (2 * j1 + 1) \<in> set rest" by simp_all
    then have "h2 ! (rest ! (2 * j1)) = h ! (rest ! (2 * j1))"
      "h2 ! (rest ! (2 * j1 + 1)) = h ! (rest ! (2 * j1 + 1))" using restlt h2o by blast+
    then show ?thesis using IH(5)[OF j1] Suc len2 by simp
  qed
  show ?case unfolding eq using c1 c2 c3 c4 c5 by simp
qed


lemma nth_pairHashes:
  "j < length xs div 2 \<Longrightarrow> pairHashes xs ! j = hashPair (xs ! (2 * j)) (xs ! (2 * j + 1))"
proof (induction xs arbitrary: j rule: pairHashes.induct)
  case (1 a b rest)
  then show ?case by (cases j) auto
qed auto

lemma pairUp_hashes:
  assumes "even (length ns)" "distinct ns" "\<forall>a\<in>set ns. a < length h"
    and "pairUp h ns = (h', ps)"
  shows "map (\<lambda>a. Hash (h' ! a)) ps = pairHashes (map (\<lambda>a. Hash (h ! a)) ns)"
proof (rule nth_equalityI)
  from pairUp_spec[OF assms(1-3)] assms(4)
  have ps: "ps = [length h ..< length h + length ns div 2]"
    and new: "\<And>j. j < length ns div 2 \<Longrightarrow> h' ! (length h + j) =
        \<lparr>Hash = hashPair (Hash (h ! (ns ! (2 * j)))) (Hash (h ! (ns ! (2 * j + 1)))),
         Left = Some (ns ! (2 * j)), Right = Some (ns ! (2 * j + 1)), Parent = None\<rparr>"
    by auto
  show "length (map (\<lambda>a. Hash (h' ! a)) ps) = length (pairHashes (map (\<lambda>a. Hash (h ! a)) ns))"
    by (simp add: ps length_pairHashes)
  fix j assume "j < length (map (\<lambda>a. Hash (h' ! a)) ps)"
  then have j: "j < length ns div 2" by (simp add: ps)
  then have "2 * j < length ns" "2 * j + 1 < length ns" using assms(1) by auto
  then show "map (\<lambda>a. Hash (h' ! a)) ps ! j = pairHashes (map (\<lambda>a. Hash (h ! a)) ns) ! j"
    using j new[OF j] by (simp add: ps nth_pairHashes)
qed

lemma dupOdd_alt: "dupOdd xs = (if odd (length xs) then xs @ [last xs] else xs)"
  by (simp add: dupOdd_def even_iff_mod_2_eq_zero)

lemma dupLast_alt:
  "dupLast h ps =
     (if length ps > 1 \<and> odd (length ps)
      then (h @ [leaf_node (Hash (h ! last ps))], ps @ [length h]) else (h, ps))"
  by (simp add: dupLast_def new_node_def even_iff_mod_2_eq_zero)

lemma dupOdd_even: "even (length xs) \<Longrightarrow> dupOdd xs = xs"
  by (simp add: dupOdd_alt)

lemma even_length_dupOdd: "even (length (dupOdd xs))"
  by (simp add: dupOdd_alt)

lemma merkleRoot_single: "merkleRoot [x] = x"
  by (subst merkleRoot.simps) simp

lemma merkleRoot_step: "length xs > 1 \<Longrightarrow> merkleRoot xs = merkleRoot (pairHashes (dupOdd xs))"
  by (subst merkleRoot.simps) simp

lemma merkleRoot_dupOdd: "length xs > 1 \<Longrightarrow> merkleRoot (dupOdd xs) = merkleRoot xs"
proof -
  assume a: "length xs > 1"
  then have "length (dupOdd xs) > 1" by (auto simp: dupOdd_alt)
  then have "merkleRoot (dupOdd xs) = merkleRoot (pairHashes (dupOdd (dupOdd xs)))"
    by (rule merkleRoot_step)
  also have "dupOdd (dupOdd xs) = dupOdd xs"
    by (rule dupOdd_even) (rule even_length_dupOdd)
  also have "merkleRoot (pairHashes (dupOdd xs)) = merkleRoot xs"
    using a by (simp add: merkleRoot_step)
  finally show ?thesis .
qed

lemma proofLoop_stop: "Parent (h ! a) = None \<Longrightarrow> proofLoop h a acc = Some acc"
  by (subst proofLoop.simps) simp

lemma proofLoop_step:
  "Parent (h ! a) = Some p \<Longrightarrow> Left (h ! p) = Some l \<Longrightarrow> Right (h ! p) = Some r \<Longrightarrow>
   proofLoop h a acc =
     proofLoop h p (acc @ [\<lparr>elem_Hash = Hash (h ! (if l = a then r else l)),
                             Position = (if l = a then ''right'' else ''left'')\<rparr>])"
  by (subst proofLoop.simps) simp

lemma dupLast_spec:
  assumes "ps = [n ..< n + k]" "length h1 = n + k" "k > 0"
  shows "case dupLast h1 ps of (h2, ps') \<Rightarrow>
     (\<forall>a < length h1. h2 ! a = h1 ! a) \<and> length h1 \<le> length h2 \<and>
     ps' = [n ..< n + length ps'] \<and> length h2 = n + length ps' \<and>
     (length ps' = 1 \<or> even (length ps')) \<and> ps' \<noteq> [] \<and> length ps' \<le> Suc k \<and> (k = 1 \<longrightarrow> length ps' = 1) \<and>
     map (\<lambda>a. Hash (h2 ! a)) ps' =
        (if k > 1 then dupOdd (map (\<lambda>a. Hash (h1 ! a)) ps) else map (\<lambda>a. Hash (h1 ! a)) ps) \<and>
     (\<forall>a \<in> set ps'. a \<notin> set ps \<longrightarrow> Parent (h2 ! a) = None)"
proof (cases "length ps > 1 \<and> odd (length ps)")
  case True
  have lp: "length ps = k" using assms(1) by simp
  have d: "dupLast h1 ps = (h1 @ [leaf_node (Hash (h1 ! last ps))], ps @ [length h1])"
    using True by (simp add: dupLast_alt)
  have psn: "ps \<noteq> []" using True by auto
  have e1: "ps @ [length h1] = [n ..< n + Suc k]" using assms by simp
  have m: "map (\<lambda>a. Hash ((h1 @ [leaf_node (Hash (h1 ! last ps))]) ! a)) ps = map (\<lambda>a. Hash (h1 ! a)) ps"
    using assms by (auto simp: nth_append)
  show ?thesis unfolding d using True lp psn assms e1 m
    by (auto simp: nth_append dupOdd_alt leaf_node_def last_map)
next
  case False
  have lp: "length ps = k" using assms(1) by simp
  have d: "dupLast h1 ps = (h1, ps)" using False by (simp add: dupLast_alt)
  show ?thesis unfolding d using False lp assms
    by (auto simp: dupOdd_alt)
qed

lemma buildTree_spec:
  assumes "ns = [n ..< n + k]" "length h = n + k" "k = 1 \<or> even k" "k > 0"
    "\<forall>a\<in>set ns. Parent (h ! a) = None"
  shows "\<exists>h' r. buildTree h ns = Some (h', r) \<and>
    Hash (h' ! r) = merkleRoot (map (\<lambda>a. Hash (h ! a)) ns) \<and>
    (\<forall>a < n. h' ! a = h ! a) \<and>
    (\<forall>a \<in> set ns. Hash (h' ! a) = Hash (h ! a) \<and> Left (h' ! a) = Left (h ! a)
                      \<and> Right (h' ! a) = Right (h ! a)) \<and>
    (\<forall>a \<in> set ns. \<forall>acc. \<exists>p. proofLoop h' a acc = Some (acc @ p)
                      \<and> foldProof (Hash (h ! a)) p = Hash (h' ! r) \<and> (\<forall>e\<in>set p. Position e = ''left'' \<or> Position e = ''right''))"
  using assms
proof (induction k arbitrary: ns n h rule: less_induct)
  case (less k)
  show ?case
  proof (cases "k = 1")
    case True
    then have ns: "ns = [n]" using less.prems(1) by simp
    have b: "buildTree h ns = Some (h, n)"
      unfolding ns by (subst buildTree.simps) simp
    have p: "proofLoop h n acc = Some (acc @ [])" for acc
      using less.prems(5) ns by (simp add: proofLoop_stop)
    show ?thesis
      unfolding b using p by (auto simp: ns merkleRoot_single)
  next
    case False
    then have ev: "even k" and k2: "k \<ge> 2" using less.prems(3,4) by auto
    have lenns: "length ns = k" using less.prems(1) by simp
    have nth_ns: "\<And>i. i < k \<Longrightarrow> ns ! i = n + i" using less.prems(1) by simp
    have pre: "even (length ns)" "distinct ns" "\<forall>a\<in>set ns. a < length h"
      using less.prems(1,2) ev by auto
    obtain h1 ps where pu: "pairUp h ns = (h1, ps)" by (cases "pairUp h ns")
    from pairUp_spec[OF pre] pu
    have len1: "length h1 = n + k + k div 2"
      and ps: "ps = [n + k ..< n + k + k div 2]"
      and fr1: "\<And>a. a < n \<Longrightarrow> h1 ! a = h ! a"
      and par1: "\<And>i. i < k \<Longrightarrow> h1 ! (n + i) = (h ! (n + i))\<lparr>Parent := Some (n + k + i div 2)\<rparr>"
      and new1: "\<And>j. j < k div 2 \<Longrightarrow> h1 ! (n + k + j) =
        \<lparr>Hash = hashPair (Hash (h ! (n + 2 * j))) (Hash (h ! (n + (2 * j + 1)))),
         Left = Some (n + 2 * j), Right = Some (n + (2 * j + 1)), Parent = None\<rparr>"
    proof -
      from pairUp_spec[OF pre] pu
      have A: "length h1 = length h + length ns div 2"
        "ps = [length h ..< length h + length ns div 2]"
        "\<forall>a < length h. a \<notin> set ns \<longrightarrow> h1 ! a = h ! a"
        "\<forall>i < length ns. h1 ! (ns ! i) = (h ! (ns ! i))\<lparr>Parent := Some (length h + i div 2)\<rparr>"
        "\<forall>j < length ns div 2. h1 ! (length h + j) =
          \<lparr>Hash = hashPair (Hash (h ! (ns ! (2 * j)))) (Hash (h ! (ns ! (2 * j + 1)))),
           Left = Some (ns ! (2 * j)), Right = Some (ns ! (2 * j + 1)), Parent = None\<rparr>"
        by auto
      show "length h1 = n + k + k div 2" using A(1) lenns less.prems(2) by simp
      show "ps = [n + k ..< n + k + k div 2]" using A(2) lenns less.prems(2) by simp
      show "\<And>a. a < n \<Longrightarrow> h1 ! a = h ! a" using A(3) less.prems(1,2) by simp
      show "\<And>i. i < k \<Longrightarrow> h1 ! (n + i) = (h ! (n + i))\<lparr>Parent := Some (n + k + i div 2)\<rparr>"
        using A(4) lenns nth_ns less.prems(2) by (metis)
      show "\<And>j. j < k div 2 \<Longrightarrow> h1 ! (n + k + j) =
        \<lparr>Hash = hashPair (Hash (h ! (n + 2 * j))) (Hash (h ! (n + (2 * j + 1)))),
         Left = Some (n + 2 * j), Right = Some (n + (2 * j + 1)), Parent = None\<rparr>"
      proof -
        fix j assume j: "j < k div 2"
        then have "2 * j < k" "2 * j + 1 < k" using ev by auto
        then have "ns ! (2 * j) = n + 2 * j" "ns ! (2 * j + 1) = n + (2 * j + 1)"
          using nth_ns by blast+
        then show "h1 ! (n + k + j) =
        \<lparr>Hash = hashPair (Hash (h ! (n + 2 * j))) (Hash (h ! (n + (2 * j + 1)))),
         Left = Some (n + 2 * j), Right = Some (n + (2 * j + 1)), Parent = None\<rparr>"
          using A(5) j lenns less.prems(2) by simp
      qed
    qed
    have hashes1: "map (\<lambda>a. Hash (h1 ! a)) ps = pairHashes (map (\<lambda>a. Hash (h ! a)) ns)"
      by (rule pairUp_hashes[OF pre pu])
    obtain h2 ps' where dl: "dupLast h1 ps = (h2, ps')" by (cases "dupLast h1 ps")
    define k' where "k' = length ps'"
    have kd: "k div 2 > 0" using k2 by simp
    from dupLast_spec[OF ps len1 kd] dl
    have fr2: "\<And>a. a < length h1 \<Longrightarrow> h2 ! a = h1 ! a"
      and ps': "ps' = [n + k ..< n + k + k']"
      and len2: "length h2 = n + k + k'"
      and k'1: "k' = 1 \<or> even k'" and k'0: "k' > 0" and k'le: "k' \<le> Suc (k div 2)"
      and k'2: "k div 2 = 1 \<Longrightarrow> k' = 1"
      and hashes2: "map (\<lambda>a. Hash (h2 ! a)) ps' =
        (if k div 2 > 1 then dupOdd (map (\<lambda>a. Hash (h1 ! a)) ps) else map (\<lambda>a. Hash (h1 ! a)) ps)"
      and parnew: "\<And>a. a \<in> set ps' \<Longrightarrow> a \<notin> set ps \<Longrightarrow> Parent (h2 ! a) = None"
      unfolding k'_def by auto
    have k'lt: "k' < k"
    proof (cases "k div 2 = 1")
      case True
      then show ?thesis using k'2 k2 by simp
    next
      case False
      then have "k \<ge> 4" using ev k2 by presburger
      then show ?thesis using k'le by simp
    qed
    have ps_sub: "set ps \<subseteq> set ps'"
      using dl by (auto simp: dupLast_alt split: if_splits)
    have par2: "\<forall>a\<in>set ps'. Parent (h2 ! a) = None"
    proof
      fix a assume a: "a \<in> set ps'"
      show "Parent (h2 ! a) = None"
      proof (cases "a \<in> set ps")
        case True
        then obtain j where j: "j < k div 2" "a = n + k + j"
          unfolding ps by (auto simp: nat_le_iff_add)
        then have "a < length h1" using len1 by simp
        then show ?thesis using fr2[of a] new1[OF j(1)] j(2) by simp
      next
        case False
        then show ?thesis using parnew a by blast
      qed
    qed
    from less.IH[OF k'lt ps' len2 k'1 k'0 par2]
    obtain h' r where bt: "buildTree h2 ps' = Some (h', r)"
      and rt: "Hash (h' ! r) = merkleRoot (map (\<lambda>a. Hash (h2 ! a)) ps')"
      and fr3: "\<And>a. a < n + k \<Longrightarrow> h' ! a = h2 ! a"
      and keep3: "\<And>a. a \<in> set ps' \<Longrightarrow> Hash (h' ! a) = Hash (h2 ! a) \<and> Left (h' ! a) = Left (h2 ! a)
                      \<and> Right (h' ! a) = Right (h2 ! a)"
      and pr3: "\<And>a acc. a \<in> set ps' \<Longrightarrow> \<exists>p. proofLoop h' a acc = Some (acc @ p)
                      \<and> foldProof (Hash (h2 ! a)) p = Hash (h' ! r) \<and> (\<forall>e\<in>set p. Position e = ''left'' \<or> Position e = ''right'')"
      by blast
    have b: "buildTree h ns = Some (h', r)"
      using False lenns pu dl bt by (subst buildTree.simps) simp
    have lps: "length (map (\<lambda>a. Hash (h1 ! a)) ps) = k div 2" by (simp add: ps)
    have c1: "Hash (h' ! r) = merkleRoot (map (\<lambda>a. Hash (h ! a)) ns)"
    proof -
      have "merkleRoot (map (\<lambda>a. Hash (h2 ! a)) ps') = merkleRoot (map (\<lambda>a. Hash (h1 ! a)) ps)"
        unfolding hashes2 using lps by (simp add: merkleRoot_dupOdd)
      also have "\<dots> = merkleRoot (pairHashes (dupOdd (map (\<lambda>a. Hash (h ! a)) ns)))"
        using hashes1 pre(1) by (simp add: dupOdd_even)
      also have "\<dots> = merkleRoot (map (\<lambda>a. Hash (h ! a)) ns)"
        using lenns k2 by (simp add: merkleRoot_step)
      finally show ?thesis using rt by simp
    qed
    have low: "h' ! a = h1 ! a" if "a < n + k" for a
      using that fr3[of a] fr2[of a] len1 by simp
    have c2: "\<forall>a < n. h' ! a = h ! a"
      using low fr1 by simp
    have mem: "h' ! (n + i) = (h ! (n + i))\<lparr>Parent := Some (n + k + i div 2)\<rparr>" if "i < k" for i
      using that low[of "n + i"] par1[of i] by simp
    have c3: "\<forall>a \<in> set ns. Hash (h' ! a) = Hash (h ! a) \<and> Left (h' ! a) = Left (h ! a)
                      \<and> Right (h' ! a) = Right (h ! a)"
    proof
      fix a assume "a \<in> set ns"
      then obtain i where i: "i < k" "a = n + i"
        unfolding less.prems(1) by (auto simp: nat_le_iff_add)
      then show "Hash (h' ! a) = Hash (h ! a) \<and> Left (h' ! a) = Left (h ! a)
                      \<and> Right (h' ! a) = Right (h ! a)"
        using mem[of i] by simp
    qed
    have c4: "\<forall>a \<in> set ns. \<forall>acc. \<exists>p. proofLoop h' a acc = Some (acc @ p)
                      \<and> foldProof (Hash (h ! a)) p = Hash (h' ! r) \<and> (\<forall>e\<in>set p. Position e = ''left'' \<or> Position e = ''right'')"
    proof (intro ballI allI)
      fix a acc assume "a \<in> set ns"
      then obtain i where i: "i < k" "a = n + i"
        unfolding less.prems(1) by (auto simp: nat_le_iff_add)
      define j where "j = i div 2"
      define p where "p = n + k + j"
      have j: "j < k div 2" using i(1) ev unfolding j_def by auto
      have l2: "2 * j < k" and r2: "2 * j + 1 < k" using j ev by auto
      have pin: "p \<in> set ps" unfolding ps p_def using j by simp
      then have pin': "p \<in> set ps'" using ps_sub by blast
      have plt: "p < length h1" unfolding p_def using len1 j by simp
      have h2p: "h2 ! p = \<lparr>Hash = hashPair (Hash (h ! (n + 2 * j))) (Hash (h ! (n + (2 * j + 1)))),
         Left = Some (n + 2 * j), Right = Some (n + (2 * j + 1)), Parent = None\<rparr>"
        using fr2[OF plt] new1[OF j] unfolding p_def by simp
      have Pa: "Parent (h' ! a) = Some p" using mem[OF i(1)] i(2) by (simp add: p_def j_def)
      have Lp: "Left (h' ! p) = Some (n + 2 * j)" using keep3[OF pin'] h2p by simp
      have Rp: "Right (h' ! p) = Some (n + (2 * j + 1))" using keep3[OF pin'] h2p by simp
      have Hl: "Hash (h' ! (n + 2 * j)) = Hash (h ! (n + 2 * j))" using mem[OF l2] by simp
      have Hr: "Hash (h' ! (n + (2 * j + 1))) = Hash (h ! (n + (2 * j + 1)))" using mem[OF r2] by simp
      define elt where "elt = \<lparr>elem_Hash = Hash (h' ! (if n + 2 * j = a then n + (2 * j + 1) else n + 2 * j)),
                             Position = (if n + 2 * j = a then ''right'' else ''left'')\<rparr>"
      have st: "proofLoop h' a acc = proofLoop h' p (acc @ [elt])"
        unfolding elt_def by (rule proofLoop_step[OF Pa Lp Rp])
      from pr3[OF pin', of "acc @ [elt]"]
      obtain q where q: "proofLoop h' p (acc @ [elt]) = Some ((acc @ [elt]) @ q)"
        "foldProof (Hash (h2 ! p)) q = Hash (h' ! r)"
        "\<forall>e\<in>set q. Position e = ''left'' \<or> Position e = ''right''" by blast
      have f: "foldProof (Hash (h ! a)) (elt # q) = Hash (h' ! r)"
      proof (cases "n + 2 * j = a")
        case True
        then show ?thesis using q(2) h2p Hr by (simp add: elt_def)
      next
        case False
        then have "a = n + (2 * j + 1)" using i(2) unfolding j_def by presburger
        then show ?thesis using q(2) h2p Hl False by (simp add: elt_def)
      qed
      show "\<exists>p. proofLoop h' a acc = Some (acc @ p) \<and> foldProof (Hash (h ! a)) p = Hash (h' ! r) \<and> (\<forall>e\<in>set p. Position e = ''left'' \<or> Position e = ''right'')"
        using st q(1) q(3) f by (intro exI[of _ "elt # q"]) (simp add: elt_def)
    qed
    show ?thesis using b c1 c2 c3 c4 by blast
  qed
qed

lemma map_leaf_Hash: "map (\<lambda>a. Hash (map leaf_node xs ! a)) [0..<length xs] = xs"
  by (rule nth_equalityI) (simp_all add: leaf_node_def)

lemma BuildMerkleTree_spec:
  assumes "hashes \<noteq> []"
  shows "\<exists>h t. BuildMerkleTree hashes = Some (h, t) \<and>
     Root h t = merkleRoot (dupOdd hashes) \<and>
     (\<forall>i < length hashes. \<exists>p. GetProof h t (int i) = Some p \<and> foldProof (hashes ! i) p = Root h t
         \<and> (\<forall>e\<in>set p. Position e = ''left'' \<or> Position e = ''right''))"
proof -
  define xs where "xs = dupOdd hashes"
  define h2 where "h2 = map leaf_node xs"
  define k where "k = length xs"
  have kpos: "k > 0" and kev: "k = 1 \<or> even k" and kge: "length hashes \<le> k"
    using assms by (auto simp: k_def xs_def dupOdd_alt)
  have B0: "BuildMerkleTree hashes =
      (case buildTree h2 [0..<k] of None \<Rightarrow> None
       | Some (h3, r) \<Rightarrow> Some (h3, \<lparr>root = Some r, leaves = [0..<k]\<rparr>))"
  proof (cases "even (length hashes)")
    case True
    then have x: "xs = hashes" by (simp add: xs_def dupOdd_alt)
    show ?thesis
      unfolding h2_def k_def x using assms True
      by (simp add: BuildMerkleTree_def new_leaves_spec even_iff_mod_2_eq_zero cong: option.case_cong)
  next
    case False
    then have x: "xs = hashes @ [last hashes]" by (simp add: xs_def dupOdd_alt)
    have l: "last [0..<length hashes] = length hashes - 1" using assms by simp
    have hl: "Hash (map leaf_node hashes ! (length hashes - 1)) = last hashes"
      using assms by (simp add: leaf_node_def last_conv_nth)
    have m: "length hashes mod 2 \<noteq> 0" using False by (simp add: even_iff_mod_2_eq_zero)
    show ?thesis
      unfolding h2_def k_def x using assms m l hl
      by (simp add: BuildMerkleTree_def new_leaves_spec new_node_def cong: option.case_cong)
  qed
  have len2: "length h2 = 0 + k" by (simp add: h2_def k_def)
  have par: "\<forall>a\<in>set [0..<k]. Parent (h2 ! a) = None"
    by (simp add: h2_def k_def leaf_node_def)
  have r0: "[0..<k] = [0..<0 + k]" by simp
  from buildTree_spec[OF r0 len2 kev kpos par]
  obtain h' r where bt: "buildTree h2 [0..<k] = Some (h', r)"
    and rt: "Hash (h' ! r) = merkleRoot (map (\<lambda>a. Hash (h2 ! a)) [0..<k])"
    and pr: "\<And>a acc. a \<in> set [0..<k] \<Longrightarrow> \<exists>p. proofLoop h' a acc = Some (acc @ p)
                      \<and> foldProof (Hash (h2 ! a)) p = Hash (h' ! r)
                      \<and> (\<forall>e\<in>set p. Position e = ''left'' \<or> Position e = ''right'')"
    by blast
  define t where "t = \<lparr>root = Some r, leaves = [0..<k]\<rparr>"
  have B: "BuildMerkleTree hashes = Some (h', t)"
    unfolding B0 t_def using bt by simp
  have R: "Root h' t = merkleRoot xs"
    using rt map_leaf_Hash[of xs] by (simp add: Root_def t_def h2_def k_def)
  have P: "\<exists>p. GetProof h' t (int i) = Some p \<and> foldProof (hashes ! i) p = Root h' t
         \<and> (\<forall>e\<in>set p. Position e = ''left'' \<or> Position e = ''right'')" if "i < length hashes" for i
  proof -
    have ik: "i < k" using that kge by simp
    have hi: "Hash (h2 ! i) = hashes ! i"
      using that ik by (auto simp: h2_def k_def xs_def dupOdd_alt leaf_node_def nth_append)
    from pr[of i "[]"] ik
    obtain p where "proofLoop h' i [] = Some p" "foldProof (Hash (h2 ! i)) p = Hash (h' ! r)"
      "\<forall>e\<in>set p. Position e = ''left'' \<or> Position e = ''right''"
      by auto
    then show ?thesis
      using ik hi by (auto simp: GetProof_def t_def Root_def)
  qed
  show ?thesis using B R P unfolding xs_def by blast
qed

lemma hashLevel_even: "even (length xs) \<Longrightarrow> hashLevel xs = Some (pairHashes xs)"
  by (induction xs rule: hashLevel.induct) auto

lemma levelLoop_spec:
  "xs \<noteq> [] \<Longrightarrow> \<exists>t'. levelLoop t xs = Some (t', [merkleRoot xs])"
proof (induction "length xs" arbitrary: xs t rule: less_induct)
  case less
  show ?case
  proof (cases "length xs > 1")
    case True
    have hl: "hashLevel (dupOdd xs) = Some (pairHashes (dupOdd xs))"
      by (rule hashLevel_even) (rule even_length_dupOdd)
    have "length (dupOdd xs) \<le> Suc (length xs)" by (simp add: dupOdd_alt)
    then have "length (dupOdd xs) div 2 < length xs" using True by arith
    then have lt: "length (pairHashes (dupOdd xs)) < length xs"
      by (simp add: length_pairHashes)
    have ne: "pairHashes (dupOdd xs) \<noteq> []"
      using True by (cases xs; cases "tl xs") (auto simp: dupOdd_alt)
    from less(1)[OF lt ne]
    obtain t' where "levelLoop (t\<lparr>api_levels := api_levels t @ [pairHashes (dupOdd xs)]\<rparr>)
        (pairHashes (dupOdd xs)) = Some (t', [merkleRoot (pairHashes (dupOdd xs))])"
      by blast
    then show ?thesis
      using True hl by (subst levelLoop.simps) (simp add: merkleRoot_step)
  next
    case False
    then obtain x where "xs = [x]" using less(2) by (cases xs) auto
    then show ?thesis by (subst levelLoop.simps) (simp add: merkleRoot_single)
  qed
qed

lemma buildMerkleTree_spec:
  "hashes \<noteq> [] \<Longrightarrow> \<exists>m. buildMerkleTree hashes = Some m \<and> api_root m = merkleRoot hashes"
proof -
  assume a: "hashes \<noteq> []"
  from levelLoop_spec[OF a, of "\<lparr>api_root = [], api_leaves = hashes, api_levels = [hashes]\<rparr>"]
  obtain t' where "levelLoop \<lparr>api_root = [], api_leaves = hashes, api_levels = [hashes]\<rparr> hashes
      = Some (t', [merkleRoot hashes])" by blast
  then show ?thesis using a by (simp add: buildMerkleTree_def)
qed

lemma length_EncodeToString: "length (EncodeToString bs) = 2 * length bs"
  by (induction bs) auto

lemma length_sha256: "length (sha256 m) = 32"
  by (simp add: sha256_def out32_def bytes_be_def split: prod.splits)

lemma length_hashPair: "length (hashPair a b) = 64"
  by (simp add: hashPair_def length_EncodeToString length_sha256)

lemma hexdigit_lower: "hexdigit n \<in> set ''0123456789abcdef''"
  unfolding hexdigit_def by (rule nth_mem) simp

lemma EncodeToString_lower: "set (EncodeToString bs) \<subseteq> set ''0123456789abcdef''"
  using hexdigit_lower by (induction bs) auto

lemma hashPair_lower: "set (hashPair a b) \<subseteq> set ''0123456789abcdef''"
  unfolding hashPair_def by (rule EncodeToString_lower)

lemma processorRoot_nonempty: "L \<noteq> [] \<Longrightarrow> processorRoot L = Some (merkleRoot (dupOdd L))"
  using BuildMerkleTree_spec[of L] by (auto simp: processorRoot_def)

lemma apiRoot_nonempty: "L \<noteq> [] \<Longrightarrow> apiRoot L = Some (merkleRoot L)"
  using buildMerkleTree_spec[of L] by (auto simp: apiRoot_def)

lemma processorRoot_empty: "processorRoot [] = Some (EncodeToString (sha256 []))"
  by (simp add: processorRoot_def BuildMerkleTree_def new_node_def leaf_node_def Root_def)

lemma apiRoot_empty: "apiRoot [] = Some []"
  by (simp add: apiRoot_def buildMerkleTree_def)

lemma merkleRoot_pair: "merkleRoot [a, b] = hashPair a b"
  by (simp add: merkleRoot_step dupOdd_alt merkleRoot_single)

lemma processorRoot_single: "processorRoot [x] = Some (hashPair x x)"
  by (simp add: processorRoot_nonempty dupOdd_alt merkleRoot_pair)

lemma apiRoot_single: "apiRoot [x] = Some x"
  by (simp add: apiRoot_nonempty merkleRoot_single)

text \<open>
  The fourth scenario of the specification: four leaves, the proof for index 2.
\<close>

lemma four_leaves:
  "\<exists>h t. BuildMerkleTree [a, b, c, d] = Some (h, t)
     \<and> Root h t = hashPair (hashPair a b) (hashPair c d)
     \<and> GetProof h t 2 = Some [\<lparr>elem_Hash = d, Position = ''right''\<rparr>,
                                \<lparr>elem_Hash = hashPair a b, Position = ''left''\<rparr>]"
  by (simp add: BuildMerkleTree_def new_node_def leaf_node_def buildTree.simps dupLast_def
      set_Parent_def Root_def GetProof_def proofLoop.simps nth_append)

section \<open>The claims\<close>

subsection \<open>Merkle engine\<close>

text \<open>
  C5, as the code has it. The query API's \<open>buildMerkleTree\<close> over the one-element list
  \<open>[h]\<close> has root \<open>h\<close>; the processor's \<open>BuildMerkleTree\<close> over the empty list has the
  root \<open>hex(SHA-256(""))\<close>, while the query API's \<open>buildMerkleTree\<close> over the empty list
  has the empty string as root.
\<close>

theorem single_and_empty_roots:
  "apiRoot [h] = Some h
   \<and> processorRoot [] = Some (EncodeToString (sha256 []))
   \<and> apiRoot [] = Some []"
  by (simp add: apiRoot_single processorRoot_empty apiRoot_empty)

text \<open>
  C5 as stated fails in each implementation: the query API's root of the empty list is
  not \<open>hex(SHA-256(""))\<close>, and the processor's root of a one-element list is not the
  leaf (it is \<open>hashPair\<close> of the leaf with itself, 64 lower-case digits).
\<close>

theorem single_and_empty_roots_counterexample:
  "apiRoot [] \<noteq> Some (EncodeToString (sha256 []))
   \<and> processorRoot [''BA7816BF8F01CFEA414140DE5DAE2223B00361A396177A9CB410FF61F20015AD'']
       \<noteq> Some ''BA7816BF8F01CFEA414140DE5DAE2223B00361A396177A9CB410FF61F20015AD''"
proof
  have "length (EncodeToString (sha256 [])) = 64"
    by (simp add: length_EncodeToString length_sha256)
  then show "apiRoot [] \<noteq> Some (EncodeToString (sha256 []))"
    by (auto simp: apiRoot_empty)
next
  let ?x = "''BA7816BF8F01CFEA414140DE5DAE2223B00361A396177A9CB410FF61F20015AD''"
  have "CHR ''B'' \<notin> set (hashPair ?x ?x)"
    using hashPair_lower[of ?x ?x] by auto
  then have "hashPair ?x ?x \<noteq> ?x" by auto
  then show "processorRoot [?x] \<noteq> Some ?x"
    by (simp add: processorRoot_single)
qed

text \<open>
  C6. For every non-empty list \<open>E\<close> of leaf hashes and every index \<open>i < |E|\<close>, the
  processor builds the tree, \<open>GetProof(i)\<close> returns a proof whose positions are all
  \<open>left\<close> or \<open>right\<close>, and folding it against \<open>E[i]\<close> (\<open>hashPair(sibling, cur)\<close> for a
  left sibling, \<open>hashPair(cur, sibling)\<close> for a right one) gives \<open>Root(E)\<close>:
  \<open>VerifyProof\<close> accepts.
\<close>

theorem merkle_round_trip:
  assumes "E \<noteq> []" and "i < length E"
  shows "\<exists>h t p. BuildMerkleTree E = Some (h, t) \<and> GetProof h t (int i) = Some p
           \<and> list_all (\<lambda>e. Position e = ''left'' \<or> Position e = ''right'') p
           \<and> foldProof (E ! i) p = Root h t \<and> VerifyProof (E ! i) p (Root h t)"
  using BuildMerkleTree_spec[OF assms(1)] assms(2)
  by (fastforce simp: VerifyProof_def list_all_iff)

theorem merkle_round_trip_witness:
  "\<exists>h t p. BuildMerkleTree [''aa'', ''bb'', ''cc''] = Some (h, t) \<and> GetProof h t 2 = Some p
       \<and> VerifyProof ([''aa'', ''bb'', ''cc''] ! 2) p (Root h t)"
  using merkle_round_trip[of "[''aa'', ''bb'', ''cc'']" 2] by auto

text \<open>
  C9, as the code has it. For every list of at least two leaf hashes the processor's
  \<open>BuildMerkleTree(L).Root()\<close> and the query API's \<open>buildMerkleTree(L).root\<close> both return,
  with the same root.
\<close>

theorem roots_agree:
  "2 \<le> length L \<Longrightarrow> \<exists>r. processorRoot L = Some r \<and> apiRoot L = Some r"
proof -
  assume a: "2 \<le> length L"
  then have "L \<noteq> []" by auto
  moreover have "merkleRoot (dupOdd L) = merkleRoot L"
    using a by (simp add: merkleRoot_dupOdd)
  ultimately show ?thesis
    by (simp add: processorRoot_nonempty apiRoot_nonempty)
qed

theorem roots_agree_witness:
  "processorRoot [''aa'', ''bb''] = Some (hashPair ''aa'' ''bb'')
     \<and> apiRoot [''aa'', ''bb''] = Some (hashPair ''aa'' ''bb'')"
  using roots_agree[of "[''aa'', ''bb'']"]
  by (simp add: apiRoot_nonempty merkleRoot_pair)

text \<open>
  C9 as stated fails on the empty list and on a one-element list: the two roots differ.
\<close>

theorem roots_differ:
  "processorRoot [] \<noteq> apiRoot []
   \<and> processorRoot [''BA7816BF8F01CFEA414140DE5DAE2223B00361A396177A9CB410FF61F20015AD'']
       \<noteq> apiRoot [''BA7816BF8F01CFEA414140DE5DAE2223B00361A396177A9CB410FF61F20015AD'']"
proof
  have "length (EncodeToString (sha256 [])) = 64"
    by (simp add: length_EncodeToString length_sha256)
  then show "processorRoot [] \<noteq> apiRoot []"
    by (auto simp: processorRoot_empty apiRoot_empty)
next
  let ?x = "''BA7816BF8F01CFEA414140DE5DAE2223B00361A396177A9CB410FF61F20015AD''"
  have "CHR ''B'' \<notin> set (hashPair ?x ?x)"
    using hashPair_lower[of ?x ?x] by auto
  then have "hashPair ?x ?x \<noteq> ?x" by auto
  then show "processorRoot [?x] \<noteq> apiRoot [?x]"
    by (simp add: processorRoot_single apiRoot_single)
qed

end
